theory Spec2Isabelle
  imports Main "HOL-Library.Word"
begin

section \<open>Data model (pkg/models)\<close>

text \<open>
  Go's \<open>int64\<close> is a 64-bit word. Go's \<open>int\<close> (the type of \<open>BooksSent\<close>) is the
  machine word of the target; the bot is built for 64-bit Linux containers, so it is a
  64-bit word as well and \<open>++\<close> wraps around. A \<open>time.Time\<close> is read here as a number
  (an instant on the clock); nothing in the code looks inside it. Go strings are byte
  sequences, as \<open>string\<close> is.
\<close>

type_synonym int64 = "64 word"
type_synonym go_int = "64 word"
type_synonym Time = int

record User =
  ID :: int64
  TelegramID :: int64
  Username :: string
  FirstName :: string
  LastName :: string
  KindleEmail :: string
  Language :: string
  CreatedAt :: Time
  UpdatedAt :: Time
  BooksSent :: go_int
  LastActive :: Time
  IsActive :: bool
  IsBanned :: bool

text \<open>
  The struct \<open>Preferences\<close> has the fields \<open>KindleEmail\<close>, \<open>Language\<close> and
  \<open>PreferredFormat\<close>; the first two carry the prefix \<open>prefs_\<close> here, since a field name
  is a constant of the theory and \<open>User\<close> has them already.
\<close>

record Preferences =
  prefs_KindleEmail :: string
  prefs_Language :: string
  PreferredFormat :: string

definition HasKindleEmail :: "User \<Rightarrow> bool" where
  "HasKindleEmail u = (KindleEmail u \<noteq> [])"

section \<open>The user store (internal/user/repository.go)\<close>

datatype error = ErrUserNotFound | ErrInvalidEmail | ErrTransport

text \<open>
  \<open>MemoryRepository\<close> is a Go map from the Telegram id to a pointer to the stored user,
  behind a mutex. Every method holds the lock for its whole body, so a method is one
  atomic step on the map; the map is the state, passed in and returned. Each method reads
  the clock at most once: the reading is the argument \<open>now\<close>.
\<close>

type_synonym MemoryRepository = "int64 \<rightharpoonup> User"

definition NewMemoryRepository :: MemoryRepository where
  "NewMemoryRepository = Map.empty"

definition GetUser :: "MemoryRepository \<Rightarrow> int64 \<Rightarrow> error + User" where
  "GetUser r telegramID =
     (case r telegramID of
        None \<Rightarrow> Inl ErrUserNotFound
      | Some user \<Rightarrow> Inr user)"

text \<open>
  \<open>SaveUser\<close> writes \<open>UpdatedAt\<close> through the caller's pointer before it stores a copy,
  so the caller's user changes too: it is returned next to the new map. The Go method
  always returns a nil error.
\<close>

definition SaveUser :: "Time \<Rightarrow> MemoryRepository \<Rightarrow> User \<Rightarrow> User \<times> MemoryRepository" where
  "SaveUser now r user =
     (let user' = user\<lparr>UpdatedAt := now\<rparr>
      in (user', r(TelegramID user' \<mapsto> user')))"

definition UpdatePreferences ::
  "Time \<Rightarrow> MemoryRepository \<Rightarrow> int64 \<Rightarrow> Preferences \<Rightarrow> error option \<times> MemoryRepository" where
  "UpdatePreferences now r telegramID prefs =
     (case r telegramID of
        None \<Rightarrow> (Some ErrUserNotFound, r)
      | Some user \<Rightarrow>
          (let user1 = (if prefs_KindleEmail prefs \<noteq> []
                        then user\<lparr>KindleEmail := prefs_KindleEmail prefs\<rparr> else user);
               user2 = (if prefs_Language prefs \<noteq> []
                        then user1\<lparr>Language := prefs_Language prefs\<rparr> else user1)
           in (None, r(telegramID \<mapsto> user2\<lparr>UpdatedAt := now\<rparr>))))"

definition IncrementBooksSent ::
  "Time \<Rightarrow> MemoryRepository \<Rightarrow> int64 \<Rightarrow> error option \<times> MemoryRepository" where
  "IncrementBooksSent now r telegramID =
     (case r telegramID of
        None \<Rightarrow> (Some ErrUserNotFound, r)
      | Some user \<Rightarrow>
          (None, r(telegramID \<mapsto> user\<lparr>BooksSent := BooksSent user + 1, UpdatedAt := now\<rparr>)))"

definition UpdateLastActive ::
  "Time \<Rightarrow> MemoryRepository \<Rightarrow> int64 \<Rightarrow> error option \<times> MemoryRepository" where
  "UpdateLastActive now r telegramID =
     (case r telegramID of
        None \<Rightarrow> (Some ErrUserNotFound, r)
      | Some user \<Rightarrow> (None, r(telegramID \<mapsto> user\<lparr>LastActive := now\<rparr>)))"

section \<open>The user manager (internal/user/manager.go)\<close>

definition ValidateKindleEmail :: "string \<Rightarrow> error option" where
  "ValidateKindleEmail email =
     (if email = [] then Some ErrInvalidEmail
      else if length email < 11 \<or> drop (length email - 11) email \<noteq> ''@kindle.com''
        then Some ErrInvalidEmail
      else if length email = 11 then Some ErrInvalidEmail
      else None)"

definition detectLanguage :: "string \<Rightarrow> string" where
  "detectLanguage langCode =
     (if length langCode \<ge> 2
      then (if take 2 langCode = ''ru'' then ''ru'' else ''en'')
      else ''en'')"

text \<open>
  \<open>GetOrCreateUser\<close> reads the clock several times; \<open>clk n\<close> is the \<open>n\<close>-th reading of
  the call (from 0), in the order the Go code makes them. On the path of an existing
  user: the \<open>LastActive\<close> of the returned copy, then the one inside \<open>UpdateLastActive\<close>
  (whose error is dropped). On the path of a new user: \<open>CreatedAt\<close>, \<open>UpdatedAt\<close>,
  \<open>LastActive\<close> of the struct literal, then the one inside \<open>SaveUser\<close>. The fields the
  literal leaves out (\<open>KindleEmail\<close>, \<open>IsBanned\<close>) are zero values.

  The method takes the store's lock twice: once inside \<open>GetUser\<close>, once inside
  \<open>UpdateLastActive\<close> or \<open>SaveUser\<close>, and holds nothing in between. So it is two
  atomic steps. \<open>GetOrCreateUser_rest\<close> is the second: what the method does once
  \<open>GetUser\<close> has returned \<open>found\<close>, on the store as it is by then. A call that nothing
  interrupts is \<open>GetOrCreateUser\<close>: the second step on the store the first one read.
\<close>

definition GetOrCreateUser_rest ::
  "(nat \<Rightarrow> Time) \<Rightarrow> error + User \<Rightarrow> MemoryRepository \<Rightarrow> int64 \<Rightarrow> string \<Rightarrow> string
     \<Rightarrow> string \<Rightarrow> string \<Rightarrow> (error + User) \<times> MemoryRepository" where
  "GetOrCreateUser_rest clk found r telegramID username firstName lastName langCode =
     (case found of
        Inr user \<Rightarrow>
          (let user' = user\<lparr>LastActive := clk 0\<rparr>;
               (err, r') = UpdateLastActive (clk 1) r telegramID
           in (Inr user', r'))
      | Inl err \<Rightarrow>
          if err \<noteq> ErrUserNotFound then (Inl err, r)
          else
            (let user = \<lparr>ID = telegramID, TelegramID = telegramID, Username = username,
                          FirstName = firstName, LastName = lastName, KindleEmail = [],
                          Language = detectLanguage langCode, CreatedAt = clk 0,
                          UpdatedAt = clk 1, BooksSent = 0, LastActive = clk 2,
                          IsActive = True, IsBanned = False\<rparr>;
                 (user', r') = SaveUser (clk 3) r user
             in (Inr user', r')))"

definition GetOrCreateUser ::
  "(nat \<Rightarrow> Time) \<Rightarrow> MemoryRepository \<Rightarrow> int64 \<Rightarrow> string \<Rightarrow> string \<Rightarrow> string \<Rightarrow> string
     \<Rightarrow> (error + User) \<times> MemoryRepository" where
  "GetOrCreateUser clk r telegramID username firstName lastName langCode =
     GetOrCreateUser_rest clk (GetUser r telegramID) r telegramID username firstName lastName
       langCode"

definition SetKindleEmail ::
  "Time \<Rightarrow> MemoryRepository \<Rightarrow> int64 \<Rightarrow> string \<Rightarrow> error option \<times> MemoryRepository" where
  "SetKindleEmail now r telegramID email =
     (case ValidateKindleEmail email of
        Some err \<Rightarrow> (Some err, r)
      | None \<Rightarrow>
          UpdatePreferences now r telegramID
            \<lparr>prefs_KindleEmail = email, prefs_Language = [], PreferredFormat = []\<rparr>)"

definition SetLanguage ::
  "Time \<Rightarrow> MemoryRepository \<Rightarrow> int64 \<Rightarrow> string \<Rightarrow> error option \<times> MemoryRepository" where
  "SetLanguage now r telegramID language =
     UpdatePreferences now r telegramID
       \<lparr>prefs_KindleEmail = [], prefs_Language = language, PreferredFormat = []\<rparr>"

definition RecordBookSent ::
  "Time \<Rightarrow> MemoryRepository \<Rightarrow> int64 \<Rightarrow> error option \<times> MemoryRepository" where
  "RecordBookSent now r telegramID = IncrementBooksSent now r telegramID"

section \<open>Localisation (internal/i18n/i18n.go)\<close>

text \<open>
  The field \<open>tables\<close> is the Go map \<open>lang -> key -> value\<close> (\<open>i.translations\<close>
  in the source; the word is reserved in Isabelle). Indexing it with a language
  that was never loaded gives a nil inner map, and a lookup in a nil map reports the key
  as absent: \<open>lookup\<close> is the two-step read \<open>i.translations[lang][key]\<close>.
\<close>

record I18n =
  tables :: "string \<rightharpoonup> (string \<rightharpoonup> string)"
  defaultLang :: string

text \<open>The values the bot passes for \<open>args ...interface{}\<close>: nil, a string or an int.\<close>

datatype arg = ArgNil | ArgString string | ArgInt go_int

definition lookup :: "I18n \<Rightarrow> string \<Rightarrow> string \<Rightarrow> string option" where
  "lookup i lang key =
     (case tables i lang of
        None \<Rightarrow> None
      | Some table \<Rightarrow> table key)"

text \<open>
  \<open>fmt.Sprintf\<close> belongs to Go's standard library, not to this program: \<open>T\<close> takes it
  as the parameter \<open>Sprintf\<close>, and everything proved about \<open>T\<close> holds for any formatter.
\<close>

definition T :: "(string \<Rightarrow> arg list \<Rightarrow> string) \<Rightarrow> I18n \<Rightarrow> string \<Rightarrow> string \<Rightarrow> arg list \<Rightarrow> string" where
  "T Sprintf i lang key args =
     (case lookup i lang key of
        Some template \<Rightarrow> (if length args > 0 then Sprintf template args else template)
      | None \<Rightarrow>
          (case lookup i (defaultLang i) key of
             Some template \<Rightarrow> (if length args > 0 then Sprintf template args else template)
           | None \<Rightarrow> key))"

section \<open>The bot handler (internal/bot/handler.go)\<close>

subsection \<open>What the Telegram library hands over\<close>

text \<open>
  An inbound message carries its chat, its text and what the library's \<open>IsCommand()\<close>,
  \<open>Command()\<close> and \<open>CommandArguments()\<close> compute from it; those three are fields here.
  Its sender is a pointer that the Bot API leaves nil for a message without sender:
  \<open>From\<close> is then \<open>None\<close>. A callback query may come without its originating message
  (a pointer too): \<open>cq_Message\<close> is then \<open>None\<close>. The handler reads through both with
  no nil check, and that read panics. The chat of a message and the sender of a callback
  query are required fields of the Bot API and always there.
\<close>

record TgUser =
  from_ID :: int64
  from_FirstName :: string
  from_LastName :: string
  from_UserName :: string
  from_LanguageCode :: string

record Message =
  From :: "TgUser option"
  ChatID :: int64
  Text :: string
  IsCommand :: bool
  Command :: string
  CommandArguments :: string

record CallbackQuery =
  cq_ID :: string
  cq_From :: TgUser
  cq_Message :: "(int64 \<times> go_int) option"
  Data :: string

record Update =
  upd_CallbackQuery :: "CallbackQuery option"
  upd_Message :: "Message option"

text \<open>
  What the bot sends: a chat message (chat, text, parse mode, inline keyboard as rows of
  label and callback data), the answer to a callback query (query id, text), or the edit
  of an earlier message (chat, message id, text).
\<close>

datatype Chattable =
    MessageConfig int64 string string "(string \<times> string) list list option"
  | CallbackConfig string string
  | EditMessageTextConfig int64 go_int string

definition NewMessage :: "int64 \<Rightarrow> string \<Rightarrow> Chattable" where
  "NewMessage chatID text = MessageConfig chatID text [] None"

subsection \<open>The environment and the state\<close>

text \<open>
  \<open>Env\<close> holds what the handler cannot decide: the two standard-library functions it
  calls (\<open>fmt.Sprintf\<close>, \<open>strings.TrimSpace\<close>), whether the \<open>n\<close>-th call of the Bot API
  succeeds (\<open>net\<close>), and the readings of the clock (\<open>clock\<close>, as for \<open>GetOrCreateUser\<close>;
  reading 4 is the one of a preference update that follows it).
  \<open>World\<close> is the state a handler changes: the user store, the replies that reached
  Telegram (\<open>sent\<close>, oldest first) and the number of Bot API calls made (\<open>calls\<close>).
\<close>

record Env =
  Sprintf :: "string \<Rightarrow> arg list \<Rightarrow> string"
  TrimSpace :: "string \<Rightarrow> string"
  net :: "nat \<Rightarrow> bool"
  clock :: "nat \<Rightarrow> Time"

record Handler =
  i18n :: I18n

record World =
  repo :: MemoryRepository
  sent :: "Chattable list"
  calls :: nat

text \<open>\<open>bot.Send\<close> and \<open>bot.Request\<close>: one Bot API call, which may fail.\<close>

definition Send :: "Env \<Rightarrow> World \<Rightarrow> Chattable \<Rightarrow> error option \<times> World" where
  "Send e w c =
     (if net e (calls w)
      then (None, w\<lparr>sent := sent w @ [c], calls := Suc (calls w)\<rparr>)
      else (Some ErrTransport, w\<lparr>calls := Suc (calls w)\<rparr>))"

text \<open>\<open>if _, err := ...; err != nil { return err }\<close>, then the rest of the body.\<close>

definition orReturn ::
  "error option \<times> World \<Rightarrow> (World \<Rightarrow> error option \<times> World) \<Rightarrow> error option \<times> World" where
  "orReturn step rest =
     (case step of
        (Some err, w) \<Rightarrow> (Some err, w)
      | (None, w) \<Rightarrow> rest w)"

definition sendMessage ::
  "Env \<Rightarrow> Handler \<Rightarrow> World \<Rightarrow> int64 \<Rightarrow> string \<Rightarrow> string \<Rightarrow> arg list \<Rightarrow> error option \<times> World" where
  "sendMessage e h w chatID language key args =
     Send e w (NewMessage chatID (T (Sprintf e) (i18n h) language key args))"

text \<open>
  Go's \<open>strings.Contains\<close>, \<open>strings.HasPrefix\<close> and \<open>strings.TrimPrefix\<close> on bytes.
\<close>

fun Contains :: "string \<Rightarrow> string \<Rightarrow> bool" where
  "Contains [] substr = (substr = [])"
| "Contains (c # s) substr = (take (length substr) (c # s) = substr \<or> Contains s substr)"

definition HasPrefix :: "string \<Rightarrow> string \<Rightarrow> bool" where
  "HasPrefix s pre = (take (length pre) s = pre)"

definition TrimPrefix :: "string \<Rightarrow> string \<Rightarrow> string" where
  "TrimPrefix s pre = (if HasPrefix s pre then drop (length pre) s else s)"

text \<open>The UTF-8 bytes of the flags and of the Russian word in the source's literals.\<close>

definition bytes :: "nat list \<Rightarrow> string" where
  "bytes ns = map char_of ns"

definition label_English :: string where
  "label_English = bytes [0xF0, 0x9F, 0x87, 0xAC, 0xF0, 0x9F, 0x87, 0xA7] @ '' English''"

definition name_Russian :: string where
  "name_Russian =
     bytes [0xD0, 0xA0, 0xD1, 0x83, 0xD1, 0x81, 0xD1, 0x81, 0xD0, 0xBA, 0xD0, 0xB8, 0xD0, 0xB9]"

definition label_Russian :: string where
  "label_Russian =
     bytes [0xF0, 0x9F, 0x87, 0xB7, 0xF0, 0x9F, 0x87, 0xBA] @ '' '' @ name_Russian"

subsection \<open>The command handlers\<close>

text \<open>
  A call \<open>h.sendMessage(chat, lang, key, nil)\<close> passes the untyped \<open>nil\<close> as one
  variadic argument: \<open>args\<close> is the one-element slice \<open>[nil]\<close>, written \<open>[ArgNil]\<close>.
\<close>

definition handleStart :: "Env \<Rightarrow> Handler \<Rightarrow> World \<Rightarrow> Message \<Rightarrow> User \<Rightarrow> error option \<times> World" where
  "handleStart e h w message user =
     orReturn
       (Send e w (NewMessage (ChatID message)
          (T (Sprintf e) (i18n h) (Language user) ''welcome'' [ArgString (FirstName user)])))
       (\<lambda>w1.
          if \<not> HasKindleEmail user then
            orReturn
              (Send e w1 (MessageConfig (ChatID message)
                 (T (Sprintf e) (i18n h) (Language user) ''whitelist_instructions'' [])
                 ''Markdown'' None))
              (\<lambda>w2.
                 orReturn
                   (Send e w2 (NewMessage (ChatID message)
                      (T (Sprintf e) (i18n h) (Language user) ''kindle_email_prompt'' [])))
                   (\<lambda>w3. (None, w3)))
          else
            orReturn
              (Send e w1 (NewMessage (ChatID message)
                 (T (Sprintf e) (i18n h) (Language user) ''search_prompt'' [])))
              (\<lambda>w2. (None, w2)))"

definition handleHelp :: "Env \<Rightarrow> Handler \<Rightarrow> World \<Rightarrow> Message \<Rightarrow> User \<Rightarrow> error option \<times> World" where
  "handleHelp e h w message user =
     sendMessage e h w (ChatID message) (Language user) ''help_message'' [ArgNil]"

definition handleKindle :: "Env \<Rightarrow> Handler \<Rightarrow> World \<Rightarrow> Message \<Rightarrow> User \<Rightarrow> error option \<times> World" where
  "handleKindle e h w message user =
     (let args = CommandArguments message in
      if args = [] then
        (if HasKindleEmail user
         then sendMessage e h w (ChatID message) (Language user) ''kindle_email_current''
                [ArgString (KindleEmail user)]
         else sendMessage e h w (ChatID message) (Language user) ''kindle_email_prompt''
                [ArgNil])
      else
        (let email = TrimSpace e args in
         case SetKindleEmail (clock e 4) (repo w) (TelegramID user) email of
           (Some err, r') \<Rightarrow>
             if err = ErrInvalidEmail
             then sendMessage e h (w\<lparr>repo := r'\<rparr>) (ChatID message) (Language user)
                    ''kindle_email_invalid'' [ArgNil]
             else (Some err, w\<lparr>repo := r'\<rparr>)
         | (None, r') \<Rightarrow>
             orReturn
               (Send e (w\<lparr>repo := r'\<rparr>) (NewMessage (ChatID message)
                  (T (Sprintf e) (i18n h) (Language user) ''kindle_email_set''
                     [ArgString email])))
               (\<lambda>w1. sendMessage e h w1 (ChatID message) (Language user)
                        ''whitelist_reminder'' [ArgNil])))"

definition handleLanguage :: "Env \<Rightarrow> Handler \<Rightarrow> World \<Rightarrow> Message \<Rightarrow> User \<Rightarrow> error option \<times> World" where
  "handleLanguage e h w message user =
     Send e w (MessageConfig (ChatID message)
       (T (Sprintf e) (i18n h) (Language user) ''language_prompt'' []) []
       (Some [[(label_English, ''lang_en''), (label_Russian, ''lang_ru'')]]))"

definition handleWhitelist :: "Env \<Rightarrow> Handler \<Rightarrow> World \<Rightarrow> Message \<Rightarrow> User \<Rightarrow> error option \<times> World" where
  "handleWhitelist e h w message user =
     Send e w (MessageConfig (ChatID message)
       (T (Sprintf e) (i18n h) (Language user) ''whitelist_instructions'' []) ''Markdown'' None)"

definition handleSettings :: "Env \<Rightarrow> Handler \<Rightarrow> World \<Rightarrow> Message \<Rightarrow> User \<Rightarrow> error option \<times> World" where
  "handleSettings e h w message user =
     (let kindleEmail = (if KindleEmail user = []
                         then T (Sprintf e) (i18n h) (Language user) ''not_set'' []
                         else KindleEmail user);
          language = (if Language user = ''en'' then ''English''
                      else if Language user = ''ru'' then name_Russian
                      else Language user)
      in sendMessage e h w (ChatID message) (Language user) ''settings_display''
           [ArgString kindleEmail, ArgString language, ArgInt (BooksSent user)])"

definition handleCancel :: "Env \<Rightarrow> Handler \<Rightarrow> World \<Rightarrow> Message \<Rightarrow> User \<Rightarrow> error option \<times> World" where
  "handleCancel e h w message user =
     sendMessage e h w (ChatID message) (Language user) ''operation_cancelled'' [ArgNil]"

definition handleCommand :: "Env \<Rightarrow> Handler \<Rightarrow> World \<Rightarrow> Message \<Rightarrow> User \<Rightarrow> error option \<times> World" where
  "handleCommand e h w message user =
     (let command = Command message in
      if command = ''start'' then handleStart e h w message user
      else if command = ''help'' then handleHelp e h w message user
      else if command = ''kindle'' then handleKindle e h w message user
      else if command = ''language'' then handleLanguage e h w message user
      else if command = ''whitelist'' then handleWhitelist e h w message user
      else if command = ''settings'' then handleSettings e h w message user
      else if command = ''cancel'' then handleCancel e h w message user
      else sendMessage e h w (ChatID message) (Language user) ''unknown_command'' [ArgNil])"

subsection \<open>Free text, messages, callbacks\<close>

text \<open>
  In \<open>handleSearchQuery\<close> every error of \<open>SetKindleEmail\<close> is answered with the
  invalid-address message. The search itself is not written yet: with an address set the
  handler sends the ``searching'' notice and then a placeholder.
\<close>

definition handleSearchQuery :: "Env \<Rightarrow> Handler \<Rightarrow> World \<Rightarrow> Message \<Rightarrow> User \<Rightarrow> error option \<times> World" where
  "handleSearchQuery e h w message user =
     (let query = TrimSpace e (Text message) in
      if \<not> HasKindleEmail user then
        (if Contains query ''@kindle.com'' then
           (case SetKindleEmail (clock e 4) (repo w) (TelegramID user) query of
              (Some err, r') \<Rightarrow>
                sendMessage e h (w\<lparr>repo := r'\<rparr>) (ChatID message) (Language user)
                  ''kindle_email_invalid'' [ArgNil]
            | (None, r') \<Rightarrow>
                orReturn
                  (Send e (w\<lparr>repo := r'\<rparr>) (NewMessage (ChatID message)
                     (T (Sprintf e) (i18n h) (Language user) ''kindle_email_set''
                        [ArgString query])))
                  (\<lambda>w1. sendMessage e h w1 (ChatID message) (Language user)
                           ''whitelist_reminder'' [ArgNil]))
         else sendMessage e h w (ChatID message) (Language user)
                ''kindle_email_required'' [ArgNil])
      else
        orReturn
          (Send e w (NewMessage (ChatID message)
             (T (Sprintf e) (i18n h) (Language user) ''searching'' [ArgString query])))
          (\<lambda>w1. sendMessage e h w1 (ChatID message) (Language user)
                   ''search_not_implemented'' [ArgNil]))"

text \<open>
  \<open>handleMessage\<close> and \<open>handleCallbackQuery\<close> either return, with an error or nil, or
  panic on a nil pointer; a panic is no return. \<open>handleMessage\<close> reads
  \<open>message.From.ID\<close> first of all, so a message without sender panics before anything
  is sent. It passes \<open>FirstName\<close>, \<open>LastName\<close>, \<open>UserName\<close> in this order to
  \<open>GetOrCreateUser\<close>, whose parameters are \<open>username\<close>, \<open>firstName\<close>, \<open>lastName\<close>; the
  model passes them by position, as Go does. \<open>handleCallbackQuery\<close> does the same.
\<close>

datatype outcome = Returned "error option" | Panic

definition returned :: "error option \<times> World \<Rightarrow> outcome \<times> World" where
  "returned res = (Returned (fst res), snd res)"

definition handleMessage :: "Env \<Rightarrow> Handler \<Rightarrow> World \<Rightarrow> Message \<Rightarrow> outcome \<times> World" where
  "handleMessage e h w message =
     (case From message of
        None \<Rightarrow> (Panic, w)
      | Some sender \<Rightarrow>
          returned
            (case GetOrCreateUser (clock e) (repo w) (from_ID sender) (from_FirstName sender)
                    (from_LastName sender) (from_UserName sender) (from_LanguageCode sender) of
               (Inl err, r') \<Rightarrow> (Some err, w\<lparr>repo := r'\<rparr>)
             | (Inr user, r') \<Rightarrow>
                 if IsCommand message then handleCommand e h (w\<lparr>repo := r'\<rparr>) message user
                 else handleSearchQuery e h (w\<lparr>repo := r'\<rparr>) message user))"

definition handleCallbackQuery :: "Env \<Rightarrow> Handler \<Rightarrow> World \<Rightarrow> CallbackQuery \<Rightarrow> outcome \<times> World" where
  "handleCallbackQuery e h w query =
     (case GetOrCreateUser (clock e) (repo w) (from_ID (cq_From query))
             (from_FirstName (cq_From query)) (from_LastName (cq_From query))
             (from_UserName (cq_From query)) (from_LanguageCode (cq_From query)) of
        (Inl err, r') \<Rightarrow> (Returned (Some err), w\<lparr>repo := r'\<rparr>)
      | (Inr user, r') \<Rightarrow>
          (let w0 = w\<lparr>repo := r'\<rparr>; data = Data query in
           if HasPrefix data ''lang_'' then
             (let lang = TrimPrefix data ''lang_'' in
              case SetLanguage (clock e 4) (repo w0) (TelegramID user) lang of
                (Some err, r'') \<Rightarrow> (Returned (Some err), w0\<lparr>repo := r''\<rparr>)
              | (None, r'') \<Rightarrow>
                  (case Send e (w0\<lparr>repo := r''\<rparr>)
                          (CallbackConfig (cq_ID query)
                             (T (Sprintf e) (i18n h) lang ''language_changed'' [])) of
                     (Some err, w1) \<Rightarrow> (Returned (Some err), w1)
                   | (None, w1) \<Rightarrow>
                       (case cq_Message query of
                          None \<Rightarrow> (Panic, w1)
                        | Some (chatID, messageID) \<Rightarrow>
                            (case Send e w1 (EditMessageTextConfig chatID messageID
                                    (T (Sprintf e) (i18n h) lang ''language_changed'' [])) of
                               (err, w2) \<Rightarrow> (Returned err, w2)))))
           else if HasPrefix data ''book_'' then
             (case Send e w0 (CallbackConfig (cq_ID query)
                     (T (Sprintf e) (i18n h) (Language user) ''feature_coming_soon'' [])) of
                (err, w1) \<Rightarrow> (Returned err, w1))
           else
             (case Send e w0 (CallbackConfig (cq_ID query) []) of
                (err, w1) \<Rightarrow> (Returned err, w1))))"

definition HandleUpdate :: "Env \<Rightarrow> Handler \<Rightarrow> World \<Rightarrow> Update \<Rightarrow> outcome \<times> World" where
  "HandleUpdate e h w update =
     (case upd_CallbackQuery update of
        Some query \<Rightarrow> handleCallbackQuery e h w query
      | None \<Rightarrow>
          (case upd_Message update of
             Some message \<Rightarrow> handleMessage e h w message
           | None \<Rightarrow> (Returned None, w)))"

section \<open>Language detection: the exported helper and the rule of the specification\<close>

text \<open>
  \<open>i18n.DetectLanguage\<close> is the exported helper of the localisation package; nothing in
  the bot calls it (the manager has its own \<open>detectLanguage\<close>, above). Its
  \<open>strings.ToLower\<close> is a parameter. \<open>strings.Index(lang, "-")\<close> finds the first
  hyphen, and \<open>lang[:idx]\<close> is what stands before it.
\<close>

definition supportedLanguages :: "string list" where
  "supportedLanguages = [''en'', ''ru'']"

definition DetectLanguage :: "(string \<Rightarrow> string) \<Rightarrow> string \<Rightarrow> string" where
  "DetectLanguage ToLower telegramLangCode =
     (let lang0 = ToLower telegramLangCode;
          lang = (if CHR ''-'' \<in> set lang0
                  then takeWhile (\<lambda>c. c \<noteq> CHR ''-'') lang0 else lang0)
      in if lang \<in> set supportedLanguages then lang else ''en'')"

definition lower_ascii :: "char \<Rightarrow> char" where
  "lower_ascii c =
     (case map_of (zip ''ABCDEFGHIJKLMNOPQRSTUVWXYZ'' ''abcdefghijklmnopqrstuvwxyz'') c of
        Some d \<Rightarrow> d
      | None \<Rightarrow> c)"

text \<open>
  The rule in the words of the specification: take the primary subtag (the text before
  the first hyphen), lowercase it, return it if it is in the supported set, and the
  default \<open>en\<close> otherwise.
\<close>

definition spec_detectLanguage :: "string \<Rightarrow> string" where
  "spec_detectLanguage hint =
     (let primary = takeWhile (\<lambda>c. c \<noteq> CHR ''-'') hint;
          lowered = map lower_ascii primary
      in if lowered \<in> set supportedLanguages then lowered else ''en'')"

text \<open>The language \<open>GetOrCreateUser\<close> gives the profile it returns.\<close>

definition assigned_language ::
  "(nat \<Rightarrow> Time) \<Rightarrow> MemoryRepository \<Rightarrow> int64 \<Rightarrow> string \<Rightarrow> string \<Rightarrow> string \<Rightarrow> string
     \<Rightarrow> string option" where
  "assigned_language clk r telegramID username firstName lastName langCode =
     (case fst (GetOrCreateUser clk r telegramID username firstName lastName langCode) of
        Inl err \<Rightarrow> None
      | Inr user \<Rightarrow> Some (Language user))"

section \<open>Sequences of calls\<close>

text \<open>
  Repeated calls of \<open>GetOrCreateUser\<close> for one id, one after the other; each call has
  its own clock readings, names and locale hint.
\<close>

record call =
  c_clock :: "nat \<Rightarrow> Time"
  c_username :: string
  c_firstName :: string
  c_lastName :: string
  c_langCode :: string

fun GetOrCreateUser_calls ::
  "MemoryRepository \<Rightarrow> int64 \<Rightarrow> call list \<Rightarrow> (error + User) list \<times> MemoryRepository" where
  "GetOrCreateUser_calls r telegramID [] = ([], r)"
| "GetOrCreateUser_calls r telegramID (c # cs) =
     (let (res, r') = GetOrCreateUser (c_clock c) r telegramID (c_username c)
                        (c_firstName c) (c_lastName c) (c_langCode c);
          (ress, r'') = GetOrCreateUser_calls r' telegramID cs
      in (res # ress, r''))"

text \<open>
  Calls of \<open>GetOrCreateUser\<close> for one id that overlap, as the goroutines of the update
  loop do. A caller is waiting, has its answer from \<open>GetUser\<close>, or is done with its
  result; a schedule names, step by step, the caller that takes the store's lock next
  and runs its next atomic step. A name that is no caller, or a caller that is done,
  changes nothing.
\<close>

datatype phase = Waiting | Found "error + User" | Done "error + User"

fun step_caller :: "int64 \<Rightarrow> call \<Rightarrow> phase \<Rightarrow> MemoryRepository \<Rightarrow> phase \<times> MemoryRepository" where
  "step_caller telegramID c Waiting r = (Found (GetUser r telegramID), r)"
| "step_caller telegramID c (Found found) r =
     (let (res, r') = GetOrCreateUser_rest (c_clock c) found r telegramID (c_username c)
                        (c_firstName c) (c_lastName c) (c_langCode c)
      in (Done res, r'))"
| "step_caller telegramID c (Done res) r = (Done res, r)"

fun run_schedule ::
  "int64 \<Rightarrow> call list \<Rightarrow> nat list \<Rightarrow> phase list \<Rightarrow> MemoryRepository
     \<Rightarrow> phase list \<times> MemoryRepository" where
  "run_schedule telegramID cs [] ps r = (ps, r)"
| "run_schedule telegramID cs (i # sched) ps r =
     (if i < length cs \<and> i < length ps then
        (let (p', r') = step_caller telegramID (cs ! i) (ps ! i) r
         in run_schedule telegramID cs sched (ps[i := p']) r')
      else run_schedule telegramID cs sched ps r)"

definition overlapping_calls ::
  "int64 \<Rightarrow> call list \<Rightarrow> nat list \<Rightarrow> MemoryRepository \<Rightarrow> phase list \<times> MemoryRepository" where
  "overlapping_calls telegramID cs sched r =
     run_schedule telegramID cs sched (replicate (length cs) Waiting) r"

text \<open>The creation time a finished caller got back.\<close>

fun returned_CreatedAt :: "phase \<Rightarrow> Time option" where
  "returned_CreatedAt (Done (Inr user)) = Some (CreatedAt user)"
| "returned_CreatedAt p = None"

text \<open>Two profiles that differ at most in \<open>LastActive\<close>.\<close>

definition same_but_LastActive :: "User \<Rightarrow> User \<Rightarrow> bool" where
  "same_but_LastActive u v = (u\<lparr>LastActive := LastActive v\<rparr> = v)"

text \<open>Every stored profile sits under its own Telegram id.\<close>

definition keyed_by_id :: "MemoryRepository \<Rightarrow> bool" where
  "keyed_by_id r = (\<forall>k u. r k = Some u \<longrightarrow> TelegramID u = k)"

text \<open>
  The operations of the manager and of the store on profiles, as data, to speak about
  arbitrary sequences of them. \<open>SaveUser\<close> is left out: it replaces a whole profile,
  the counter included, and the manager calls it only when no profile is stored.
\<close>

datatype op =
    OpGetOrCreateUser "nat \<Rightarrow> Time" int64 string string string string
  | OpSetKindleEmail Time int64 string
  | OpSetLanguage Time int64 string
  | OpRecordBookSent Time int64
  | OpGetUser int64
  | OpUpdatePreferences Time int64 Preferences
  | OpIncrementBooksSent Time int64
  | OpUpdateLastActive Time int64

fun exec :: "op \<Rightarrow> MemoryRepository \<Rightarrow> error option \<times> MemoryRepository" where
  "exec (OpGetOrCreateUser clk i un fn ln lc) r =
     (case GetOrCreateUser clk r i un fn ln lc of
        (Inl err, r') \<Rightarrow> (Some err, r')
      | (Inr user, r') \<Rightarrow> (None, r'))"
| "exec (OpSetKindleEmail now i email) r = SetKindleEmail now r i email"
| "exec (OpSetLanguage now i language) r = SetLanguage now r i language"
| "exec (OpRecordBookSent now i) r = RecordBookSent now r i"
| "exec (OpGetUser i) r =
     (case GetUser r i of Inl err \<Rightarrow> (Some err, r) | Inr user \<Rightarrow> (None, r))"
| "exec (OpUpdatePreferences now i prefs) r = UpdatePreferences now r i prefs"
| "exec (OpIncrementBooksSent now i) r = IncrementBooksSent now r i"
| "exec (OpUpdateLastActive now i) r = UpdateLastActive now r i"

fun run :: "op list \<Rightarrow> MemoryRepository \<Rightarrow> MemoryRepository" where
  "run [] r = r"
| "run (x # xs) r = run xs (snd (exec x r))"

fun is_delivery :: "int64 \<Rightarrow> op \<Rightarrow> bool" where
  "is_delivery i (OpRecordBookSent now j) = (i = j)"
| "is_delivery i (OpIncrementBooksSent now j) = (i = j)"
| "is_delivery i x = False"

text \<open>
  The number of counter increments for the id \<open>i\<close> that succeed (return a nil error)
  while the sequence runs from the store \<open>r\<close>.
\<close>

fun deliveries :: "int64 \<Rightarrow> op list \<Rightarrow> MemoryRepository \<Rightarrow> nat" where
  "deliveries i [] r = 0"
| "deliveries i (x # xs) r =
     (if is_delivery i x \<and> fst (exec x r) = None then 1 else 0)
       + deliveries i xs (snd (exec x r))"

section \<open>Vocabulary for the router's properties\<close>

text \<open>
  \<open>no_endpoint\<close>: the sender has no Kindle address, because the stored profile has
  none or because there is no profile yet. \<open>as_kindle_command\<close>: the same message as the
  library would present it had the user sent \<open>/kindle\<close> with the given arguments.
  \<open>resolve_sender\<close>: the first step of \<open>handleMessage\<close>, the call of
  \<open>GetOrCreateUser\<close> for the sender.
\<close>

definition no_endpoint :: "MemoryRepository \<Rightarrow> int64 \<Rightarrow> bool" where
  "no_endpoint r telegramID =
     (case r telegramID of None \<Rightarrow> True | Some user \<Rightarrow> \<not> HasKindleEmail user)"

definition as_kindle_command :: "Message \<Rightarrow> string \<Rightarrow> Message" where
  "as_kindle_command m args = m\<lparr>IsCommand := True, Command := ''kindle'', CommandArguments := args\<rparr>"

definition resolve_sender :: "Env \<Rightarrow> World \<Rightarrow> TgUser \<Rightarrow> (error + User) \<times> MemoryRepository" where
  "resolve_sender e w sender =
     GetOrCreateUser (clock e) (repo w) (from_ID sender) (from_FirstName sender)
       (from_LastName sender) (from_UserName sender) (from_LanguageCode sender)"




section \<open>A test fixture\<close>

text \<open>
  Concrete values to run the model on: a trimmer of ASCII white space (what
  \<open>strings.TrimSpace\<close> does on ASCII text), a formatter that returns its template, some
  of the English table of the handler's test setup, a network that delivers every
  reply, a clock that ticks, and two stored users.
\<close>

definition ascii_space :: "char \<Rightarrow> bool" where
  "ascii_space c = (c \<in> set [CHR 0x09, CHR 0x0A, CHR 0x0B, CHR 0x0C, CHR 0x0D, CHR '' ''])"

definition trim_ascii :: "string \<Rightarrow> string" where
  "trim_ascii s = rev (dropWhile ascii_space (rev (dropWhile ascii_space s)))"

definition template_only :: "string \<Rightarrow> arg list \<Rightarrow> string" where
  "template_only template args = template"

definition test_i18n :: I18n where
  "test_i18n =
     \<lparr>tables = [''en'' \<mapsto> map_of
                 [(''welcome'', ''Welcome, %s!''),
                  (''kindle_email_prompt'', ''Send your Kindle email''),
                  (''kindle_email_set'', ''Email set to %s''),
                  (''kindle_email_invalid'', ''Invalid email''),
                  (''whitelist_instructions'', ''Whitelist instructions''),
                  (''whitelist_reminder'', ''Remember to whitelist''),
                  (''kindle_email_required'', ''Email required''),
                  (''searching'', ''Searching for %s''),
                  (''search_not_implemented'', ''Coming soon'')]],
      defaultLang = ''en''\<rparr>"

definition test_handler :: Handler where
  "test_handler = \<lparr>i18n = test_i18n\<rparr>"

definition test_env :: Env where
  "test_env = \<lparr>Sprintf = template_only, TrimSpace = trim_ascii,
                net = (\<lambda>n. True), clock = (\<lambda>n. 1000 + int n)\<rparr>"

definition alice :: User where
  "alice = \<lparr>ID = 12345, TelegramID = 12345, Username = ''johndoe'', FirstName = ''John'',
             LastName = ''Doe'', KindleEmail = [], Language = ''en'', CreatedAt = 10,
             UpdatedAt = 20, BooksSent = 0, LastActive = 30, IsActive = True,
             IsBanned = False\<rparr>"

definition bob :: User where
  "bob = \<lparr>ID = 7, TelegramID = 7, Username = ''bob'', FirstName = ''Bob'',
           LastName = [], KindleEmail = ''bob@kindle.com'', Language = ''ru'', CreatedAt = 1,
           UpdatedAt = 2, BooksSent = 41, LastActive = 3, IsActive = True,
           IsBanned = False\<rparr>"

definition test_repo :: MemoryRepository where
  "test_repo = [12345 \<mapsto> alice, 7 \<mapsto> bob]"

definition from_alice :: TgUser where
  "from_alice = \<lparr>from_ID = 12345, from_FirstName = ''John'', from_LastName = ''Doe'',
                  from_UserName = ''johndoe'', from_LanguageCode = ''en''\<rparr>"

definition text_message :: "TgUser \<Rightarrow> string \<Rightarrow> Message" where
  "text_message sender txt =
     \<lparr>From = Some sender, ChatID = from_ID sender, Text = txt, IsCommand = False,
      Command = [], CommandArguments = []\<rparr>"


definition call1 :: call where
  "call1 = \<lparr>c_clock = (\<lambda>n. 100 + int n), c_username = ''johndoe'', c_firstName = ''John'',
             c_lastName = ''Doe'', c_langCode = ''en-US''\<rparr>"

definition call2 :: call where
  "call2 = \<lparr>c_clock = (\<lambda>n. 200 + int n), c_username = ''jd'', c_firstName = ''Johnny'',
             c_lastName = [], c_langCode = ''ru''\<rparr>"

definition full_counter :: MemoryRepository where
  "full_counter = [7 \<mapsto> bob\<lparr>BooksSent := 0x7FFFFFFFFFFFFFFF\<rparr>]"

definition test_ops :: "op list" where
  "test_ops =
     [OpRecordBookSent 60 7,
      OpGetOrCreateUser (\<lambda>n. 70 + int n) 7 ''bob'' ''Bob'' [] ''ru'',
      OpSetKindleEmail 80 7 ''bobby@kindle.com'',
      OpRecordBookSent 90 12345,
      OpSetLanguage 100 7 ''en'',
      OpUpdateLastActive 110 7,
      OpRecordBookSent 120 7]"

definition msg_address :: Message where
  "msg_address = text_message from_alice ''  john@kindle.com ''"

definition msg_1984 :: Message where
  "msg_1984 = text_message from_alice ''1984''"




definition msg_no_sender :: Message where
  "msg_no_sender = (text_message from_alice ''hello'')\<lparr>From := None\<rparr>"


definition upd_no_sender :: Update where
  "upd_no_sender = \<lparr>upd_CallbackQuery = None, upd_Message = Some msg_no_sender\<rparr>"



definition new_world :: "MemoryRepository \<Rightarrow> World" where
  "new_world r = \<lparr>repo = r, sent = [], calls = 0\<rparr>"

section \<open>Validation of the Kindle address\<close>

lemma ValidateKindleEmail_None_iff:
  "ValidateKindleEmail s = None \<longleftrightarrow> (\<exists>p. p \<noteq> [] \<and> s = p @ ''@kindle.com'')"
proof
  assume ok: "ValidateKindleEmail s = None"
  then have len: "11 < length s" and suf: "drop (length s - 11) s = ''@kindle.com''"
    by (auto simp: ValidateKindleEmail_def split: if_splits)
  have "s = take (length s - 11) s @ ''@kindle.com''"
    using suf append_take_drop_id [of "length s - 11" s] by simp
  moreover have "take (length s - 11) s \<noteq> []"
    using len by auto
  ultimately show "\<exists>p. p \<noteq> [] \<and> s = p @ ''@kindle.com''"
    by blast
next
  assume "\<exists>p. p \<noteq> [] \<and> s = p @ ''@kindle.com''"
  then obtain p where p: "p \<noteq> []" and s: "s = p @ ''@kindle.com''"
    by blast
  from p have "0 < length p" by simp
  with s show "ValidateKindleEmail s = None"
    by (simp add: ValidateKindleEmail_def)
qed

lemma ValidateKindleEmail_cases:
  "ValidateKindleEmail s = None \<or> ValidateKindleEmail s = Some ErrInvalidEmail"
  by (simp add: ValidateKindleEmail_def)

text \<open>
  C1. \<open>ValidateKindleEmail\<close> accepts a string exactly when it is non-empty and is a
  non-empty local part followed by the byte-exact suffix \<open>@kindle.com\<close>; every other
  string is rejected with \<open>ErrInvalidEmail\<close>. So \<open>@kindle.com\<close> alone is rejected,
  \<open>x@kindle.com\<close> is accepted, and \<open>a@gmail.com\<close> and \<open>a@Kindle.com\<close> are rejected.
\<close>

theorem C1_ValidateKindleEmail_accepts_iff:
  "(ValidateKindleEmail s = None \<longleftrightarrow>
      s \<noteq> [] \<and> (\<exists>p. p \<noteq> [] \<and> s = p @ ''@kindle.com''))
   \<and> (ValidateKindleEmail s \<noteq> None \<longrightarrow> ValidateKindleEmail s = Some ErrInvalidEmail)
   \<and> ((\<nexists>p. s = p @ ''@kindle.com'') \<longrightarrow> ValidateKindleEmail s = Some ErrInvalidEmail)
   \<and> ValidateKindleEmail ''@kindle.com'' = Some ErrInvalidEmail
   \<and> ValidateKindleEmail ''x@kindle.com'' = None
   \<and> ValidateKindleEmail ''a@gmail.com'' = Some ErrInvalidEmail
   \<and> ValidateKindleEmail ''a@Kindle.com'' = Some ErrInvalidEmail"
proof -
  have a: "ValidateKindleEmail s = None \<longleftrightarrow>
      s \<noteq> [] \<and> (\<exists>p. p \<noteq> [] \<and> s = p @ ''@kindle.com'')"
    using ValidateKindleEmail_None_iff [of s] by auto
  have b: "ValidateKindleEmail s \<noteq> None \<longrightarrow> ValidateKindleEmail s = Some ErrInvalidEmail"
    using ValidateKindleEmail_cases [of s] by auto
  have c: "(\<nexists>p. s = p @ ''@kindle.com'') \<longrightarrow> ValidateKindleEmail s = Some ErrInvalidEmail"
    using ValidateKindleEmail_None_iff [of s] ValidateKindleEmail_cases [of s] by auto
  have d: "ValidateKindleEmail ''@kindle.com'' = Some ErrInvalidEmail"
    by (simp add: ValidateKindleEmail_def)
  have e: "ValidateKindleEmail ''x@kindle.com'' = None"
    by (simp add: ValidateKindleEmail_def)
  have f: "ValidateKindleEmail ''a@gmail.com'' = Some ErrInvalidEmail"
    by (simp add: ValidateKindleEmail_def)
  have g: "ValidateKindleEmail ''a@Kindle.com'' = Some ErrInvalidEmail"
    by (simp add: ValidateKindleEmail_def)
  from a b c d e f g show ?thesis by blast
qed

theorem C1_witness:
  "ValidateKindleEmail ''user.name@kindle.com'' = None
   \<and> ValidateKindleEmail ''user @kindle.org'' = Some ErrInvalidEmail"
proof -
  have "''user.name@kindle.com'' = ''user.name'' @ ''@kindle.com''" by simp
  then have "\<exists>p. p \<noteq> [] \<and> ''user.name@kindle.com'' = p @ ''@kindle.com''"
    by blast
  then have ok: "ValidateKindleEmail ''user.name@kindle.com'' = None"
    using C1_ValidateKindleEmail_accepts_iff [of "''user.name@kindle.com''"] by blast
  have "\<nexists>p. ''user @kindle.org'' = p @ ''@kindle.com''"
    by (auto simp: append_eq_Cons_conv)
  then have "ValidateKindleEmail ''user @kindle.org'' = Some ErrInvalidEmail"
    using C1_ValidateKindleEmail_accepts_iff [of "''user @kindle.org''"] by blast
  with ok show ?thesis by simp
qed

section \<open>The store: preference updates and the activity stamp\<close>

lemma UpdatePreferences_stored:
  assumes "r i = Some u"
  shows "UpdatePreferences now r i prefs =
     (None, r(i \<mapsto> u\<lparr>KindleEmail := (if prefs_KindleEmail prefs = [] then KindleEmail u
                                        else prefs_KindleEmail prefs),
                      Language := (if prefs_Language prefs = [] then Language u
                                   else prefs_Language prefs),
                      UpdatedAt := now\<rparr>))"
  using assms by (simp add: UpdatePreferences_def Let_def)

lemma UpdatePreferences_missing:
  "r i = None \<Longrightarrow> UpdatePreferences now r i prefs = (Some ErrUserNotFound, r)"
  by (simp add: UpdatePreferences_def)

text \<open>
  C2. For an identity with a stored profile and an address the validation rejects,
  \<open>SetKindleEmail\<close> returns \<open>ErrInvalidEmail\<close> and hands back the store it was given:
  the stored profile, its \<open>KindleEmail\<close> and \<open>UpdatedAt\<close> included, is what it was.
\<close>

theorem C2_SetKindleEmail_rejected_no_mutation:
  assumes "r i = Some u" and "ValidateKindleEmail email \<noteq> None"
  shows "SetKindleEmail now r i email = (Some ErrInvalidEmail, r)
         \<and> snd (SetKindleEmail now r i email) i = Some u
         \<and> GetUser (snd (SetKindleEmail now r i email)) i = Inr u"
proof -
  from assms(2) have "ValidateKindleEmail email = Some ErrInvalidEmail"
    using ValidateKindleEmail_cases [of email] by auto
  then have "SetKindleEmail now r i email = (Some ErrInvalidEmail, r)"
    by (simp add: SetKindleEmail_def)
  with assms(1) show ?thesis by (simp add: GetUser_def)
qed

theorem C2_witness:
  "test_repo 12345 = Some alice
   \<and> ValidateKindleEmail ''resource-wrong@gmail.com'' \<noteq> None
   \<and> SetKindleEmail 99 test_repo 12345 ''resource-wrong@gmail.com''
       = (Some ErrInvalidEmail, test_repo)
   \<and> snd (SetKindleEmail 99 test_repo 12345 ''resource-wrong@gmail.com'') 12345 = Some alice
   \<and> KindleEmail alice = []"
proof -
  have a: "test_repo 12345 = Some alice" by (simp add: test_repo_def)
  have b: "ValidateKindleEmail ''resource-wrong@gmail.com'' \<noteq> None"
    by (simp add: ValidateKindleEmail_def)
  have c: "KindleEmail alice = []" by (simp add: alice_def)
  from a b c
    C2_SetKindleEmail_rejected_no_mutation
      [of test_repo 12345 alice "''resource-wrong@gmail.com''" 99, OF a b]
  show ?thesis by simp
qed

text \<open>
  C3. On a stored profile \<open>UpdatePreferences\<close> succeeds and replaces it by a profile
  whose \<open>KindleEmail\<close> is the partial's when that is non-empty and the old one
  otherwise, likewise for \<open>Language\<close>, whose \<open>UpdatedAt\<close> is the clock reading of the
  call, and whose other fields are unchanged. So a partial with only \<open>Language\<close> set
  leaves \<open>KindleEmail\<close> alone, and the other way round.
\<close>

theorem C3_UpdatePreferences_partial_merge:
  assumes "r i = Some u"
  shows "\<exists>u'. UpdatePreferences now r i prefs = (None, r(i \<mapsto> u'))
     \<and> (prefs_KindleEmail prefs = [] \<longrightarrow> KindleEmail u' = KindleEmail u)
     \<and> (prefs_KindleEmail prefs \<noteq> [] \<longrightarrow> KindleEmail u' = prefs_KindleEmail prefs)
     \<and> (prefs_Language prefs = [] \<longrightarrow> Language u' = Language u)
     \<and> (prefs_Language prefs \<noteq> [] \<longrightarrow> Language u' = prefs_Language prefs)
     \<and> UpdatedAt u' = now
     \<and> ID u' = ID u \<and> TelegramID u' = TelegramID u \<and> Username u' = Username u
     \<and> FirstName u' = FirstName u \<and> LastName u' = LastName u
     \<and> CreatedAt u' = CreatedAt u \<and> BooksSent u' = BooksSent u
     \<and> LastActive u' = LastActive u \<and> IsActive u' = IsActive u
     \<and> IsBanned u' = IsBanned u
     \<and> u'\<lparr>KindleEmail := KindleEmail u, Language := Language u, UpdatedAt := UpdatedAt u\<rparr> = u"
proof -
  let ?u' = "u\<lparr>KindleEmail := (if prefs_KindleEmail prefs = [] then KindleEmail u
                                  else prefs_KindleEmail prefs),
                Language := (if prefs_Language prefs = [] then Language u
                             else prefs_Language prefs),
                UpdatedAt := now\<rparr>"
  have "UpdatePreferences now r i prefs = (None, r(i \<mapsto> ?u'))"
    by (rule UpdatePreferences_stored [of r i u, OF assms])
  then show ?thesis
    by (intro exI [of _ ?u']) simp
qed

theorem C3_witness:
  "\<exists>u'. UpdatePreferences 50 test_repo 7
      \<lparr>prefs_KindleEmail = [], prefs_Language = ''en'', PreferredFormat = []\<rparr>
     = (None, test_repo(7 \<mapsto> u'))
   \<and> KindleEmail u' = ''bob@kindle.com'' \<and> Language u' = ''en'' \<and> UpdatedAt u' = 50
   \<and> BooksSent u' = 41"
proof -
  have a: "test_repo 7 = Some bob" by (simp add: test_repo_def)
  from C3_UpdatePreferences_partial_merge [of test_repo 7 bob 50
      "\<lparr>prefs_KindleEmail = [], prefs_Language = ''en'', PreferredFormat = []\<rparr>", OF a]
  obtain u' where "UpdatePreferences 50 test_repo 7
      \<lparr>prefs_KindleEmail = [], prefs_Language = ''en'', PreferredFormat = []\<rparr>
      = (None, test_repo(7 \<mapsto> u'))"
    "KindleEmail u' = KindleEmail bob" "Language u' = ''en''" "UpdatedAt u' = 50"
    "BooksSent u' = BooksSent bob"
    by auto
  then show ?thesis by (auto simp: bob_def)
qed

lemma UpdateLastActive_stored:
  "r i = Some u \<Longrightarrow> UpdateLastActive now r i = (None, r(i \<mapsto> u\<lparr>LastActive := now\<rparr>))"
  by (simp add: UpdateLastActive_def)

text \<open>
  C10. On a stored profile \<open>UpdateLastActive\<close> succeeds and changes \<open>LastActive\<close>
  only: \<open>UpdatedAt\<close> and every other field keep their values, whereas \<open>SaveUser\<close> and
  \<open>UpdatePreferences\<close> set \<open>UpdatedAt\<close> to the clock reading of the call.
\<close>

theorem C10_UpdateLastActive_frame:
  assumes "r i = Some u"
  shows "\<exists>u'. UpdateLastActive now r i = (None, r(i \<mapsto> u'))
     \<and> LastActive u' = now
     \<and> UpdatedAt u' = UpdatedAt u
     \<and> ID u' = ID u \<and> TelegramID u' = TelegramID u \<and> Username u' = Username u
     \<and> FirstName u' = FirstName u \<and> LastName u' = LastName u
     \<and> KindleEmail u' = KindleEmail u \<and> Language u' = Language u
     \<and> CreatedAt u' = CreatedAt u \<and> BooksSent u' = BooksSent u
     \<and> IsActive u' = IsActive u \<and> IsBanned u' = IsBanned u
     \<and> u'\<lparr>LastActive := LastActive u\<rparr> = u
     \<and> UpdatedAt (fst (SaveUser now r u)) = now
     \<and> snd (SaveUser now r u) (TelegramID u) = Some (u\<lparr>UpdatedAt := now\<rparr>)
     \<and> (\<exists>u''. snd (UpdatePreferences now r i prefs) i = Some u'' \<and> UpdatedAt u'' = now)"
proof -
  have "UpdateLastActive now r i = (None, r(i \<mapsto> u\<lparr>LastActive := now\<rparr>))"
    by (rule UpdateLastActive_stored [of r i u, OF assms])
  then show ?thesis
    by (intro exI [of _ "u\<lparr>LastActive := now\<rparr>"])
       (simp add: SaveUser_def Let_def UpdatePreferences_stored [of r i u, OF assms])
qed

theorem C10_witness:
  "\<exists>u'. UpdateLastActive 77 test_repo 7 = (None, test_repo(7 \<mapsto> u'))
     \<and> LastActive u' = 77 \<and> UpdatedAt u' = 2 \<and> BooksSent u' = 41 \<and> Language u' = ''ru''"
proof -
  have a: "test_repo 7 = Some bob" by (simp add: test_repo_def)
  from C10_UpdateLastActive_frame [of test_repo 7 bob 77 undefined, OF a]
  obtain u' where "UpdateLastActive 77 test_repo 7 = (None, test_repo(7 \<mapsto> u'))"
    "LastActive u' = 77" "UpdatedAt u' = UpdatedAt bob" "BooksSent u' = BooksSent bob"
    "Language u' = Language bob"
    by auto
  then show ?thesis by (auto simp: bob_def)
qed

section \<open>Creating a profile: the language it gets\<close>

lemma GetOrCreateUser_new:
  assumes "r i = None"
  shows "GetOrCreateUser clk r i un fn ln lc =
     (Inr \<lparr>ID = i, TelegramID = i, Username = un, FirstName = fn, LastName = ln,
            KindleEmail = [], Language = detectLanguage lc, CreatedAt = clk 0,
            UpdatedAt = clk 3, BooksSent = 0, LastActive = clk 2, IsActive = True,
            IsBanned = False\<rparr>,
      r(i \<mapsto> \<lparr>ID = i, TelegramID = i, Username = un, FirstName = fn, LastName = ln,
            KindleEmail = [], Language = detectLanguage lc, CreatedAt = clk 0,
            UpdatedAt = clk 3, BooksSent = 0, LastActive = clk 2, IsActive = True,
            IsBanned = False\<rparr>))"
  using assms
  by (simp add: GetOrCreateUser_def GetOrCreateUser_rest_def GetUser_def SaveUser_def Let_def)

lemma GetOrCreateUser_existing:
  assumes "r i = Some u"
  shows "GetOrCreateUser clk r i un fn ln lc =
     (Inr (u\<lparr>LastActive := clk 0\<rparr>), r(i \<mapsto> u\<lparr>LastActive := clk 1\<rparr>))"
  using assms
  by (simp add: GetOrCreateUser_def GetOrCreateUser_rest_def GetUser_def UpdateLastActive_def
      Let_def)

lemma detectLanguage_eq:
  "detectLanguage lc = (if take 2 lc = ''ru'' then ''ru'' else ''en'')"
  by (auto simp: detectLanguage_def)

lemma lower_ascii_hyphen: "lower_ascii c = CHR ''-'' \<longleftrightarrow> c = CHR ''-''"
  by (simp add: lower_ascii_def)

lemma DetectLanguage_is_spec:
  "DetectLanguage (map lower_ascii) hint = spec_detectLanguage hint"
proof (cases "CHR ''-'' \<in> set (map lower_ascii hint)")
  case True
  have "takeWhile (\<lambda>c. c \<noteq> CHR ''-'') (map lower_ascii hint)
        = map lower_ascii (takeWhile (\<lambda>c. c \<noteq> CHR ''-'') hint)"
    by (simp add: takeWhile_map comp_def lower_ascii_hyphen)
  with True show ?thesis
    by (simp add: DetectLanguage_def spec_detectLanguage_def Let_def)
next
  case False
  then have "\<forall>c \<in> set hint. c \<noteq> CHR ''-''"
    using lower_ascii_hyphen by (metis image_eqI set_map)
  then have tw: "takeWhile (\<lambda>c. c \<noteq> CHR ''-'') hint = hint"
    by (simp add: takeWhile_eq_all_conv)
  show ?thesis
    unfolding DetectLanguage_def spec_detectLanguage_def Let_def tw
    using False by simp
qed

lemma detectLanguage_agrees_with_spec:
  assumes len: "length (takeWhile (\<lambda>c. c \<noteq> CHR ''-'') hint) \<le> 2"
    and low: "map lower_ascii (takeWhile (\<lambda>c. c \<noteq> CHR ''-'') hint)
              = takeWhile (\<lambda>c. c \<noteq> CHR ''-'') hint"
  shows "detectLanguage hint = spec_detectLanguage hint"
proof -
  let ?P = "takeWhile (\<lambda>c. c \<noteq> CHR ''-'') hint"
  let ?R = "dropWhile (\<lambda>c. c \<noteq> CHR ''-'') hint"
  have h: "hint = ?P @ ?R" by simp
  have R: "?R = [] \<or> hd ?R = CHR ''-''"
    using hd_dropWhile [of "\<lambda>c. c \<noteq> CHR ''-''" hint] by auto
  have spec: "spec_detectLanguage hint = (if ?P = ''ru'' then ''ru'' else ''en'')"
    unfolding spec_detectLanguage_def Let_def low supportedLanguages_def by auto
  have code: "take 2 hint = ''ru'' \<longleftrightarrow> ?P = ''ru''"
  proof
    assume t: "take 2 hint = ''ru''"
    from len consider "?P = []" | a where "?P = [a]" | a b where "?P = [a, b]"
      by (cases ?P rule: list.exhaust) (auto simp: le_Suc_eq length_Suc_conv numeral_2_eq_2)
    then show "?P = ''ru''"
    proof cases
      case 1
      with h have "hint = ?R" by simp
      with t R show ?thesis by (cases ?R) auto
    next
      case 2
      with h have hh: "hint = a # ?R" by simp
      have "take 2 hint = take 2 (a # ?R)" using hh by simp
      with t R show ?thesis by (cases ?R) auto
    next
      case 3
      with h have hh: "hint = a # b # ?R" by simp
      have "take 2 hint = take 2 (a # b # ?R)" using hh by simp
      with t 3 show ?thesis by simp
    qed
  next
    assume "?P = ''ru''"
    then have "hint = ''ru'' @ ?R" using h by simp
    then have "take 2 hint = take 2 (''ru'' @ ?R)" by simp
    then show "take 2 hint = ''ru''" by simp
  qed
  show ?thesis
    by (simp add: detectLanguage_eq spec code)
qed

lemma GetOrCreateUser_language:
  assumes "r i = None"
  shows "assigned_language clk r i un fn ln lc
           = Some (if take 2 lc = ''ru'' then ''ru'' else ''en'')
     \<and> (\<exists>u. snd (GetOrCreateUser clk r i un fn ln lc) i = Some u
            \<and> Language u = (if take 2 lc = ''ru'' then ''ru'' else ''en''))"
proof -
  have a: "assigned_language clk r i un fn ln lc = Some (detectLanguage lc)"
    by (simp add: assigned_language_def GetOrCreateUser_new [of r i, OF assms])
  have b: "\<exists>u. snd (GetOrCreateUser clk r i un fn ln lc) i = Some u
            \<and> Language u = detectLanguage lc"
    by (simp add: GetOrCreateUser_new [of r i, OF assms])
  from a b show ?thesis
    by (simp add: detectLanguage_eq)
qed

text \<open>
  C4. The language of a newly created profile should be the answer of the
  specification's rule: the primary subtag of the locale hint, lowercased, when it is
  \<open>en\<close> or \<open>ru\<close>, and \<open>en\<close> otherwise. The exported \<open>DetectLanguage\<close> is that rule for
  every hint (\<open>DetectLanguage_is_spec\<close>). \<open>GetOrCreateUser\<close> calls the manager's own
  \<open>detectLanguage\<close> instead, which compares the first two bytes of the hint with \<open>ru\<close>,
  and the two part: for the hint \<open>RU\<close> the rule and \<open>DetectLanguage\<close> answer \<open>ru\<close> and
  the new profile gets \<open>en\<close>; for the hint \<open>rue\<close> they answer \<open>en\<close> and the new profile
  gets \<open>ru\<close>.
\<close>

theorem C4_created_language_diverges:
  "assigned_language (\<lambda>n. int n) NewMemoryRepository 12345 ''johndoe'' ''John'' ''Doe'' ''RU''
     = Some ''en''
   \<and> spec_detectLanguage ''RU'' = ''ru''
   \<and> DetectLanguage (map lower_ascii) ''RU'' = ''ru''
   \<and> assigned_language (\<lambda>n. int n) NewMemoryRepository 12345 ''johndoe'' ''John'' ''Doe'' ''rue''
     = Some ''ru''
   \<and> spec_detectLanguage ''rue'' = ''en''
   \<and> DetectLanguage (map lower_ascii) ''rue'' = ''en''"
proof -
  have a: "assigned_language (\<lambda>n. int n) NewMemoryRepository 12345 ''johndoe'' ''John'' ''Doe''
             ''RU'' = Some ''en''"
    by (simp add: assigned_language_def NewMemoryRepository_def GetOrCreateUser_new
        detectLanguage_eq)
  have b: "spec_detectLanguage ''RU'' = ''ru''"
    by (simp add: spec_detectLanguage_def supportedLanguages_def lower_ascii_def)
  have c: "assigned_language (\<lambda>n. int n) NewMemoryRepository 12345 ''johndoe'' ''John'' ''Doe''
             ''rue'' = Some ''ru''"
    by (simp add: assigned_language_def NewMemoryRepository_def GetOrCreateUser_new
        detectLanguage_eq)
  have d: "spec_detectLanguage ''rue'' = ''en''"
    by (simp add: spec_detectLanguage_def supportedLanguages_def lower_ascii_def)
  from a b c d show ?thesis
    by (simp add: DetectLanguage_is_spec)
qed

section \<open>Creating a profile once\<close>

lemma same_but_LastActive_refl: "same_but_LastActive u u"
  by (simp add: same_but_LastActive_def)

lemma same_but_LastActive_update:
  "same_but_LastActive s v \<Longrightarrow> same_but_LastActive (s\<lparr>LastActive := t\<rparr>) v"
  by (simp add: same_but_LastActive_def)

lemma same_but_LastActive_fields:
  assumes "same_but_LastActive u v"
  shows "CreatedAt u = CreatedAt v" and "TelegramID u = TelegramID v" and "ID u = ID v"
    and "KindleEmail u = KindleEmail v" and "Language u = Language v"
    and "BooksSent u = BooksSent v" and "UpdatedAt u = UpdatedAt v"
proof -
  from assms have e: "v = u\<lparr>LastActive := LastActive v\<rparr>"
    by (simp add: same_but_LastActive_def)
  show "CreatedAt u = CreatedAt v" by (subst e) simp
  show "TelegramID u = TelegramID v" by (subst e) simp
  show "ID u = ID v" by (subst e) simp
  show "KindleEmail u = KindleEmail v" by (subst e) simp
  show "Language u = Language v" by (subst e) simp
  show "BooksSent u = BooksSent v" by (subst e) simp
  show "UpdatedAt u = UpdatedAt v" by (subst e) simp
qed

lemma GetOrCreateUser_calls_existing:
  assumes "r i = Some s" and "same_but_LastActive s u0"
  shows "length (fst (GetOrCreateUser_calls r i cs)) = length cs
     \<and> (\<forall>res \<in> set (fst (GetOrCreateUser_calls r i cs)).
           \<exists>u. res = Inr u \<and> same_but_LastActive u u0)
     \<and> (\<exists>s'. snd (GetOrCreateUser_calls r i cs) i = Some s' \<and> same_but_LastActive s' u0)
     \<and> (\<forall>k. k \<noteq> i \<longrightarrow> snd (GetOrCreateUser_calls r i cs) k = r k)"
  using assms
proof (induction cs arbitrary: r s)
  case Nil
  then show ?case by simp
next
  case (Cons c cs)
  define r1 where "r1 = r(i \<mapsto> s\<lparr>LastActive := c_clock c 1\<rparr>)"
  have step: "GetOrCreateUser (c_clock c) r i (c_username c) (c_firstName c) (c_lastName c)
                (c_langCode c) = (Inr (s\<lparr>LastActive := c_clock c 0\<rparr>), r1)"
    unfolding r1_def by (rule GetOrCreateUser_existing [of r i s, OF Cons.prems(1)])
  have r1: "r1 i = Some (s\<lparr>LastActive := c_clock c 1\<rparr>)"
    by (simp add: r1_def)
  have others: "\<forall>k. k \<noteq> i \<longrightarrow> r1 k = r k"
    by (simp add: r1_def)
  have s1: "same_but_LastActive (s\<lparr>LastActive := c_clock c 1\<rparr>) u0"
    by (rule same_but_LastActive_update [OF Cons.prems(2)])
  have s0: "same_but_LastActive (s\<lparr>LastActive := c_clock c 0\<rparr>) u0"
    by (rule same_but_LastActive_update [OF Cons.prems(2)])
  note IH = Cons.IH [of r1, OF r1 s1]
  have unfold: "GetOrCreateUser_calls r i (c # cs) =
      (Inr (s\<lparr>LastActive := c_clock c 0\<rparr>) # fst (GetOrCreateUser_calls r1 i cs),
       snd (GetOrCreateUser_calls r1 i cs))"
    by (simp add: step split: prod.splits)
  from IH s0 others show ?case
    unfolding unfold by auto
qed

lemma keyed_by_id_test_repo: "keyed_by_id test_repo"
  by (auto simp: keyed_by_id_def test_repo_def alice_def bob_def split: if_splits)

text \<open>
  Calls of \<open>GetOrCreateUser\<close> made one after the other, for an id that has no profile
  yet, with any names, locale hints and clock readings. The first call creates the
  profile, with the first clock reading as \<open>CreatedAt\<close>; every call returns a profile
  that differs from it at most in \<open>LastActive\<close>, so all have the same \<open>CreatedAt\<close>; the
  store ends with one profile for the id, the same but for \<open>LastActive\<close>, under the key
  of the id and under no other key; all other entries of the store are untouched.
\<close>

lemma GetOrCreateUser_calls_idempotent:
  assumes "r i = None" and "keyed_by_id r"
  shows "\<exists>u0 s.
       hd (fst (GetOrCreateUser_calls r i (c # cs))) = Inr u0
     \<and> CreatedAt u0 = c_clock c 0 \<and> TelegramID u0 = i
     \<and> length (fst (GetOrCreateUser_calls r i (c # cs))) = Suc (length cs)
     \<and> (\<forall>res \<in> set (fst (GetOrCreateUser_calls r i (c # cs))).
           \<exists>u. res = Inr u \<and> same_but_LastActive u u0 \<and> CreatedAt u = CreatedAt u0)
     \<and> snd (GetOrCreateUser_calls r i (c # cs)) i = Some s
     \<and> same_but_LastActive s u0 \<and> CreatedAt s = CreatedAt u0
     \<and> (\<forall>k. k \<noteq> i \<longrightarrow> snd (GetOrCreateUser_calls r i (c # cs)) k = r k)
     \<and> dom (snd (GetOrCreateUser_calls r i (c # cs))) = insert i (dom r)
     \<and> keyed_by_id (snd (GetOrCreateUser_calls r i (c # cs)))
     \<and> {k. \<exists>u. snd (GetOrCreateUser_calls r i (c # cs)) k = Some u \<and> TelegramID u = i} = {i}"
proof -
  define u0 where "u0 = \<lparr>ID = i, TelegramID = i, Username = c_username c,
      FirstName = c_firstName c, LastName = c_lastName c, KindleEmail = [],
      Language = detectLanguage (c_langCode c), CreatedAt = c_clock c 0,
      UpdatedAt = c_clock c 3, BooksSent = 0, LastActive = c_clock c 2, IsActive = True,
      IsBanned = False\<rparr>"
  define r0 where "r0 = r(i \<mapsto> u0)"
  define ress where "ress = fst (GetOrCreateUser_calls r0 i cs)"
  define r' where "r' = snd (GetOrCreateUser_calls r0 i cs)"
  have first: "GetOrCreateUser (c_clock c) r i (c_username c) (c_firstName c) (c_lastName c)
                 (c_langCode c) = (Inr u0, r0)"
    unfolding u0_def r0_def by (rule GetOrCreateUser_new [of r i, OF assms(1)])
  have all: "GetOrCreateUser_calls r i (c # cs) = (Inr u0 # ress, r')"
    by (simp add: first ress_def r'_def split: prod.splits)
  have r0i: "r0 i = Some u0" by (simp add: r0_def)
  have r0k: "\<forall>k. k \<noteq> i \<longrightarrow> r0 k = r k" by (simp add: r0_def)
  have u0c: "CreatedAt u0 = c_clock c 0" and u0t: "TelegramID u0 = i"
    by (simp_all add: u0_def)
  from GetOrCreateUser_calls_existing [of r0 i u0 u0 cs, OF r0i same_but_LastActive_refl]
  have len: "length ress = length cs"
    and res: "\<forall>res \<in> set ress. \<exists>u. res = Inr u \<and> same_but_LastActive u u0"
    and st: "\<exists>s'. r' i = Some s' \<and> same_but_LastActive s' u0"
    and oth: "\<forall>k. k \<noteq> i \<longrightarrow> r' k = r0 k"
    unfolding ress_def r'_def by blast+
  from st obtain s where s: "r' i = Some s" and ss: "same_but_LastActive s u0"
    by blast
  have rk: "\<forall>k. k \<noteq> i \<longrightarrow> r' k = r k"
    using oth r0k by simp
  have resall: "\<forall>res \<in> set (Inr u0 # ress).
      \<exists>u. res = Inr u \<and> same_but_LastActive u u0 \<and> CreatedAt u = CreatedAt u0"
  proof
    fix res assume "res \<in> set (Inr u0 # ress)"
    then consider "res = Inr u0" | "res \<in> set ress" by auto
    then show "\<exists>u. res = Inr u \<and> same_but_LastActive u u0 \<and> CreatedAt u = CreatedAt u0"
    proof cases
      case 1
      then show ?thesis by (simp add: same_but_LastActive_refl)
    next
      case 2
      with res obtain u where u: "res = Inr u" "same_but_LastActive u u0" by blast
      from u(2) have "CreatedAt u = CreatedAt u0" by (rule same_but_LastActive_fields(1))
      with u show ?thesis by simp
    qed
  qed
  have dom: "dom r' = insert i (dom r)"
  proof (rule set_eqI)
    fix k show "k \<in> dom r' \<longleftrightarrow> k \<in> insert i (dom r)"
      using s rk by (cases "k = i") (auto simp: dom_def)
  qed
  have st_id: "TelegramID s = i"
    using same_but_LastActive_fields(2) [OF ss] u0t by simp
  have keyed: "keyed_by_id r'"
    unfolding keyed_by_id_def
  proof (intro allI impI)
    fix k u assume ku: "r' k = Some u"
    show "TelegramID u = k"
    proof (cases "k = i")
      case True
      with ku s st_id show ?thesis by simp
    next
      case False
      with ku rk have "r k = Some u" by simp
      with assms(2) show ?thesis by (simp add: keyed_by_id_def)
    qed
  qed
  have single: "{k. \<exists>u. r' k = Some u \<and> TelegramID u = i} = {i}"
  proof (rule set_eqI)
    fix k show "k \<in> {k. \<exists>u. r' k = Some u \<and> TelegramID u = i} \<longleftrightarrow> k \<in> {i}"
      using keyed s st_id by (auto simp: keyed_by_id_def)
  qed
  have cs: "CreatedAt s = CreatedAt u0"
    by (rule same_but_LastActive_fields(1) [OF ss])
  show ?thesis
    unfolding all fst_conv snd_conv list.sel
    using u0c u0t len resall s ss cs rk dom keyed single
    by (intro exI [of _ u0] exI [of _ s]) simp
qed

lemma GetOrCreateUser_calls_three:
  "test_repo 99 = None \<and> keyed_by_id test_repo
   \<and> map (map_sum id CreatedAt) (fst (GetOrCreateUser_calls test_repo 99 [call1, call2, call1]))
       = [Inr 100, Inr 100, Inr 100]
   \<and> map_option CreatedAt (snd (GetOrCreateUser_calls test_repo 99 [call1, call2, call1]) 99)
       = Some 100
   \<and> dom (snd (GetOrCreateUser_calls test_repo 99 [call1, call2, call1])) = {99, 12345, 7}"
proof -
  have a: "test_repo 99 = None" by (simp add: test_repo_def)
  have d: "dom test_repo = {12345, 7}" by (auto simp: test_repo_def)
  have c0: "c_clock call1 0 = 100" by (simp add: call1_def)
  let ?R = "GetOrCreateUser_calls test_repo 99 [call1, call2, call1]"
  from GetOrCreateUser_calls_idempotent [of test_repo 99 call1 "[call2, call1]",
      OF a keyed_by_id_test_repo]
  obtain u0 s where h: "hd (fst ?R) = Inr u0" "CreatedAt u0 = c_clock call1 0"
    and len: "length (fst ?R) = 3"
    and all: "\<forall>res \<in> set (fst ?R). \<exists>u. res = Inr u \<and> same_but_LastActive u u0
                \<and> CreatedAt u = CreatedAt u0"
    and st: "snd ?R 99 = Some s" "CreatedAt s = CreatedAt u0"
    and dm: "dom (snd ?R) = insert 99 (dom test_repo)"
    by auto
  from len obtain x y z where xyz: "fst ?R = [x, y, z]"
    by (auto simp: length_Suc_conv numeral_3_eq_3)
  from all xyz h(2) c0 have "map (map_sum id CreatedAt) (fst ?R) = [Inr 100, Inr 100, Inr 100]"
    by auto
  moreover from st h(2) c0 have "map_option CreatedAt (snd ?R 99) = Some 100" by simp
  moreover from dm d have "dom (snd ?R) = {99, 12345, 7}" by simp
  ultimately show ?thesis using a keyed_by_id_test_repo by simp
qed

section \<open>Creating a profile from overlapping calls\<close>

lemma overlapping_two_new:
  assumes "r i = None"
  shows "overlapping_calls i [a, b] [0, 1, 0, 1] r =
     ([Done (fst (GetOrCreateUser (c_clock a) r i (c_username a) (c_firstName a)
                    (c_lastName a) (c_langCode a))),
       Done (fst (GetOrCreateUser (c_clock b) r i (c_username b) (c_firstName b)
                    (c_lastName b) (c_langCode b)))],
      snd (GetOrCreateUser (c_clock b) r i (c_username b) (c_firstName b)
             (c_lastName b) (c_langCode b)))"
  using assms
  by (simp add: overlapping_calls_def GetOrCreateUser_def GetOrCreateUser_rest_def GetUser_def
      SaveUser_def Let_def numeral_2_eq_2)

lemma back_to_back_two:
  "overlapping_calls i [a, b] [0, 0, 1, 1] r =
     (map Done (fst (GetOrCreateUser_calls r i [a, b])), snd (GetOrCreateUser_calls r i [a, b]))"
  by (simp add: overlapping_calls_def GetOrCreateUser_def Let_def numeral_2_eq_2
      split: prod.splits)

text \<open>
  C5. Repeated calls of \<open>GetOrCreateUser\<close> for one id should create one profile and all
  return it, with the same \<open>CreatedAt\<close>. That holds for calls made one after the other
  (above). The update loop starts one goroutine per update, and \<open>GetOrCreateUser\<close> takes
  the store's lock twice, for \<open>GetUser\<close> and again for \<open>SaveUser\<close>, so two calls can
  overlap. Take the store of the fixture, which has no profile for the id 99, and two
  callers whose clocks read 100 and 200. When both look the id up before either saves,
  both find nothing and both construct a profile: the first caller gets one created at
  100, the second one created at 200, and the second save replaces the stored profile of
  the first. Run one after the other, the same two calls both return the profile
  created at 100.
\<close>

theorem C5_overlapping_calls_diverge:
  "test_repo 99 = None
   \<and> map returned_CreatedAt (fst (overlapping_calls 99 [call1, call2] [0, 1, 0, 1] test_repo))
       = [Some 100, Some 200]
   \<and> map_option CreatedAt (snd (overlapping_calls 99 [call1, call2] [0, 1, 0, 1] test_repo) 99)
       = Some 200
   \<and> map returned_CreatedAt (fst (overlapping_calls 99 [call1, call2] [0, 0, 1, 1] test_repo))
       = [Some 100, Some 100]
   \<and> map_option CreatedAt (snd (overlapping_calls 99 [call1, call2] [0, 0, 1, 1] test_repo) 99)
       = Some 100"
proof -
  have n: "test_repo 99 = None" by (simp add: test_repo_def)
  have a: "c_clock call1 0 = 100" "c_clock call2 0 = 200"
    by (simp_all add: call1_def call2_def)
  have o: "map returned_CreatedAt
             (fst (overlapping_calls 99 [call1, call2] [0, 1, 0, 1] test_repo))
             = [Some 100, Some 200]
     \<and> map_option CreatedAt
         (snd (overlapping_calls 99 [call1, call2] [0, 1, 0, 1] test_repo) 99) = Some 200"
    unfolding overlapping_two_new [of test_repo 99 call1 call2, OF n]
      GetOrCreateUser_new [of test_repo 99, OF n]
    using a by simp
  define u0 where "u0 = \<lparr>ID = 99, TelegramID = 99, Username = c_username call1,
      FirstName = c_firstName call1, LastName = c_lastName call1, KindleEmail = [],
      Language = detectLanguage (c_langCode call1), CreatedAt = c_clock call1 0,
      UpdatedAt = c_clock call1 3, BooksSent = 0, LastActive = c_clock call1 2,
      IsActive = True, IsBanned = False\<rparr>"
  define r0 where "r0 = test_repo(99 \<mapsto> u0)"
  have first: "GetOrCreateUser (c_clock call1) test_repo 99 (c_username call1)
      (c_firstName call1) (c_lastName call1) (c_langCode call1) = (Inr u0, r0)"
    unfolding u0_def r0_def by (rule GetOrCreateUser_new [of test_repo 99, OF n])
  have r0: "r0 99 = Some u0" by (simp add: r0_def)
  have second: "GetOrCreateUser (c_clock call2) r0 99 (c_username call2)
      (c_firstName call2) (c_lastName call2) (c_langCode call2)
      = (Inr (u0\<lparr>LastActive := c_clock call2 0\<rparr>), r0(99 \<mapsto> u0\<lparr>LastActive := c_clock call2 1\<rparr>))"
    by (rule GetOrCreateUser_existing [of r0 99 u0, OF r0])
  have seq: "GetOrCreateUser_calls test_repo 99 [call1, call2]
      = ([Inr u0, Inr (u0\<lparr>LastActive := c_clock call2 0\<rparr>)],
         r0(99 \<mapsto> u0\<lparr>LastActive := c_clock call2 1\<rparr>))"
    by (simp add: first second)
  have c: "CreatedAt u0 = 100" using a by (simp add: u0_def)
  have s: "map returned_CreatedAt
             (fst (overlapping_calls 99 [call1, call2] [0, 0, 1, 1] test_repo))
             = [Some 100, Some 100]
     \<and> map_option CreatedAt
         (snd (overlapping_calls 99 [call1, call2] [0, 0, 1, 1] test_repo) 99) = Some 100"
    unfolding back_to_back_two seq using c by simp
  from n o s show ?thesis by simp
qed

section \<open>The delivery counter\<close>

lemma UpdatePreferences_BooksSent:
  "r i = Some u \<Longrightarrow>
     \<exists>u'. snd (UpdatePreferences now r j prefs) i = Some u' \<and> BooksSent u' = BooksSent u"
  by (auto simp: UpdatePreferences_def Let_def split: option.splits)

lemma UpdateLastActive_BooksSent:
  "r i = Some u \<Longrightarrow>
     \<exists>u'. snd (UpdateLastActive now r j) i = Some u' \<and> BooksSent u' = BooksSent u"
  by (auto simp: UpdateLastActive_def split: option.splits)

lemma IncrementBooksSent_BooksSent:
  "r i = Some u \<Longrightarrow>
     \<exists>u'. snd (IncrementBooksSent now r j) i = Some u'
        \<and> BooksSent u' = BooksSent u + (if i = j then 1 else 0)
        \<and> (i = j \<longrightarrow> fst (IncrementBooksSent now r j) = None)"
  by (auto simp: IncrementBooksSent_def split: option.splits)

lemma SetKindleEmail_BooksSent:
  "r i = Some u \<Longrightarrow>
     \<exists>u'. snd (SetKindleEmail now r j email) i = Some u' \<and> BooksSent u' = BooksSent u"
  using UpdatePreferences_BooksSent [of r i u]
  by (auto simp: SetKindleEmail_def split: option.splits)

lemma GetOrCreateUser_BooksSent:
  "r i = Some u \<Longrightarrow>
     \<exists>u'. snd (GetOrCreateUser clk r j un fn ln lc) i = Some u' \<and> BooksSent u' = BooksSent u"
  by (cases "r j")
     (auto simp: GetOrCreateUser_new GetOrCreateUser_existing)

lemma exec_BooksSent:
  assumes "r i = Some u"
  shows "\<exists>u'. snd (exec x r) i = Some u'
     \<and> BooksSent u' = BooksSent u + (if is_delivery i x then 1 else 0)
     \<and> (is_delivery i x \<longrightarrow> fst (exec x r) = None)"
proof (cases x)
  case (OpGetOrCreateUser clk j un fn ln lc)
  with GetOrCreateUser_BooksSent [of r i u clk j un fn ln lc, OF assms] show ?thesis
    by (auto split: prod.splits sum.splits)
next
  case (OpSetKindleEmail now j email)
  with SetKindleEmail_BooksSent [of r i u now j email, OF assms] show ?thesis by simp
next
  case (OpSetLanguage now j language)
  with UpdatePreferences_BooksSent [of r i u now j, OF assms] show ?thesis
    by (simp add: SetLanguage_def)
next
  case (OpRecordBookSent now j)
  with IncrementBooksSent_BooksSent [of r i u now j, OF assms] show ?thesis
    by (auto simp: RecordBookSent_def)
next
  case (OpGetUser j)
  with assms show ?thesis by (simp split: sum.splits)
next
  case (OpUpdatePreferences now j prefs)
  with UpdatePreferences_BooksSent [of r i u now j prefs, OF assms] show ?thesis by simp
next
  case (OpIncrementBooksSent now j)
  with IncrementBooksSent_BooksSent [of r i u now j, OF assms] show ?thesis by auto
next
  case (OpUpdateLastActive now j)
  with UpdateLastActive_BooksSent [of r i u now j, OF assms] show ?thesis by simp
qed

lemma run_BooksSent:
  "r i = Some u \<Longrightarrow>
     \<exists>u'. run ops r i = Some u'
       \<and> BooksSent u' = BooksSent u + of_nat (deliveries i ops r)
       \<and> deliveries i ops r = length (filter (is_delivery i) ops)"
proof (induction ops arbitrary: r u)
  case Nil
  then show ?case by simp
next
  case (Cons x xs)
  from exec_BooksSent [of r i u x, OF Cons.prems] obtain u1 where
    u1: "snd (exec x r) i = Some u1"
    and b1: "BooksSent u1 = BooksSent u + (if is_delivery i x then 1 else 0)"
    and ok: "is_delivery i x \<longrightarrow> fst (exec x r) = None"
    by blast
  from Cons.IH [of "snd (exec x r)" u1, OF u1] obtain u' where
    u': "run xs (snd (exec x r)) i = Some u'"
    and b': "BooksSent u' = BooksSent u1 + of_nat (deliveries i xs (snd (exec x r)))"
    and d': "deliveries i xs (snd (exec x r)) = length (filter (is_delivery i) xs)"
    by blast
  show ?case
    using u' b' d' b1 ok by simp
qed

lemma sint_add_of_nat:
  fixes a :: "64 word"
  assumes "sint a + int n < 2 ^ 63"
  shows "sint (a + of_nat n) = sint a + int n"
proof -
  have lo: "- (2 ^ 63) \<le> sint a + int n"
    using sint_ge [of a] by simp
  have "a + of_nat n = word_of_int (sint a) + word_of_int (int n)"
    by simp
  also have "\<dots> = word_of_int (sint a + int n)"
    by simp
  finally have "sint (a + of_nat n) = signed_take_bit 63 (sint a + int n)"
    by (simp only: sint_sbintrunc') simp
  also have "\<dots> = sint a + int n"
    using lo assms by (rule signed_take_bit_int_eq_self)
  finally show ?thesis .
qed

lemma sint_max_int: "sint (0x7FFFFFFFFFFFFFFF :: 64 word) = 9223372036854775807" by simp
lemma sint_max_int_plus_1: "sint ((0x7FFFFFFFFFFFFFFF :: 64 word) + 1) = - 9223372036854775808" by simp

text \<open>
  C6, as stated, fails at the end of the range of Go's \<open>int\<close>: a stored profile may hold
  the largest value, \<open>2^63 - 1\<close>, and the successful increment \<open>BooksSent++\<close> then wraps
  to \<open>-2^63\<close>: the counter went down, not up by one.
\<close>

theorem C6_counterexample:
  "map_option (\<lambda>u. sint (BooksSent u)) (full_counter 7) = Some 9223372036854775807
   \<and> fst (RecordBookSent 5 full_counter 7) = None
   \<and> map_option (\<lambda>u. sint (BooksSent u)) (snd (RecordBookSent 5 full_counter 7) 7)
       = Some (- 9223372036854775808)"
proof -
  have st: "full_counter 7 = Some (bob\<lparr>BooksSent := 0x7FFFFFFFFFFFFFFF\<rparr>)"
    by (simp add: full_counter_def)
  have inc: "RecordBookSent 5 full_counter 7 =
      (None, full_counter(7 \<mapsto> bob\<lparr>BooksSent := 0x7FFFFFFFFFFFFFFF + 1, UpdatedAt := 5\<rparr>))"
    unfolding RecordBookSent_def IncrementBooksSent_def st by simp
  have sel: "\<And>x t. BooksSent (bob\<lparr>BooksSent := x\<rparr>) = x"
    "\<And>x t. BooksSent (bob\<lparr>BooksSent := x, UpdatedAt := t\<rparr>) = x"
    by simp_all
  have a: "map_option (\<lambda>u. sint (BooksSent u)) (full_counter 7) = Some 9223372036854775807"
    unfolding st by (simp only: option.map sel sint_max_int)
  have b: "map_option (\<lambda>u. sint (BooksSent u)) (snd (RecordBookSent 5 full_counter 7) 7)
       = Some (- 9223372036854775808)"
    unfolding inc by (simp only: snd_conv fun_upd_same option.map sel sint_max_int_plus_1)
  from a b inc show ?thesis by (simp only: fst_conv simp_thms)
qed

text \<open>
  C6, amended. Run any sequence of operations of the manager and of the store (get or
  create, set address, set language, record a delivery, read, update preferences,
  increment, touch; for any ids) from a store that holds a profile for the id \<open>i\<close>. The
  profile is still stored at the end; every increment for \<open>i\<close> in the sequence succeeds;
  and \<open>BooksSent\<close> is its first value plus the number of those increments in the
  arithmetic of Go's \<open>int\<close>, that is modulo \<open>2^64\<close>: as a number, whenever the sum stays
  below \<open>2^63\<close>. No other operation changes the counter.
\<close>

theorem C6_BooksSent_counts_deliveries:
  assumes "r i = Some u"
  shows "\<exists>u'. run ops r i = Some u'
     \<and> deliveries i ops r = length (filter (is_delivery i) ops)
     \<and> BooksSent u' = BooksSent u + of_nat (deliveries i ops r)
     \<and> (sint (BooksSent u) + int (deliveries i ops r) < 2 ^ 63
          \<longrightarrow> sint (BooksSent u') = sint (BooksSent u) + int (deliveries i ops r))
     \<and> (deliveries i ops r = 0 \<longrightarrow> BooksSent u' = BooksSent u)"
proof -
  from run_BooksSent [of r i u ops, OF assms] obtain u' where
    a: "run ops r i = Some u'"
    and b: "BooksSent u' = BooksSent u + of_nat (deliveries i ops r)"
    and c: "deliveries i ops r = length (filter (is_delivery i) ops)"
    by blast
  have d: "sint (BooksSent u) + int (deliveries i ops r) < 2 ^ 63
          \<longrightarrow> sint (BooksSent u') = sint (BooksSent u) + int (deliveries i ops r)"
    unfolding b by (rule impI) (rule sint_add_of_nat)
  have e: "deliveries i ops r = 0 \<longrightarrow> BooksSent u' = BooksSent u"
    using b by simp
  show ?thesis
    by (rule exI [of _ u']) (intro conjI a b c d e)
qed

theorem C6_witness:
  "test_repo 7 = Some bob \<and> BooksSent bob = 41
   \<and> deliveries 7 test_ops test_repo = 2
   \<and> map_option (\<lambda>u. sint (BooksSent u)) (run test_ops test_repo 7) = Some 43"
proof -
  have a: "test_repo 7 = Some bob" by (simp add: test_repo_def)
  have b: "BooksSent bob = 41" by (simp add: bob_def)
  have n: "length (filter (is_delivery 7) test_ops) = 2" by (simp add: test_ops_def)
  from C6_BooksSent_counts_deliveries [of test_repo 7 bob test_ops, OF a]
  obtain u' where u: "run test_ops test_repo 7 = Some u'"
    and d: "deliveries 7 test_ops test_repo = length (filter (is_delivery 7) test_ops)"
    and s: "sint (BooksSent bob) + int (deliveries 7 test_ops test_repo) < 2 ^ 63
          \<longrightarrow> sint (BooksSent u') = sint (BooksSent bob) + int (deliveries 7 test_ops test_repo)"
    by blast
  from d n have d2: "deliveries 7 test_ops test_repo = 2" by simp
  from s d2 b have "sint (BooksSent u') = 43" by simp
  with a b d2 u show ?thesis by simp
qed

section \<open>Localisation: the fallback chain\<close>








section \<open>The store keeps every profile under its own id\<close>

lemma keyed_by_id_empty: "keyed_by_id NewMemoryRepository"
  by (simp add: keyed_by_id_def NewMemoryRepository_def)

lemma keyed_by_id_update:
  "keyed_by_id r \<Longrightarrow> TelegramID u = j \<Longrightarrow> keyed_by_id (r(j \<mapsto> u))"
  by (simp add: keyed_by_id_def)

lemma keyed_by_id_SaveUser: "keyed_by_id r \<Longrightarrow> keyed_by_id (snd (SaveUser now r u))"
  by (simp add: SaveUser_def Let_def keyed_by_id_update)

lemma keyed_by_id_UpdatePreferences:
  "keyed_by_id r \<Longrightarrow> keyed_by_id (snd (UpdatePreferences now r j prefs))"
proof (cases "r j")
  case None
  assume "keyed_by_id r"
  with None show ?thesis by (simp add: UpdatePreferences_missing)
next
  case (Some u)
  assume k: "keyed_by_id r"
  with Some have "TelegramID u = j" by (simp add: keyed_by_id_def)
  with k show ?thesis
    by (simp add: UpdatePreferences_stored [of r j u, OF Some] keyed_by_id_update)
qed

lemma keyed_by_id_IncrementBooksSent:
  "keyed_by_id r \<Longrightarrow> keyed_by_id (snd (IncrementBooksSent now r j))"
  by (cases "r j") (auto simp: IncrementBooksSent_def keyed_by_id_def)

lemma keyed_by_id_UpdateLastActive:
  "keyed_by_id r \<Longrightarrow> keyed_by_id (snd (UpdateLastActive now r j))"
  by (cases "r j") (auto simp: UpdateLastActive_def keyed_by_id_def)

lemma keyed_by_id_GetOrCreateUser:
  "keyed_by_id r \<Longrightarrow> keyed_by_id (snd (GetOrCreateUser clk r j un fn ln lc))"
  by (cases "r j") (auto simp: GetOrCreateUser_new GetOrCreateUser_existing keyed_by_id_def)

lemma keyed_by_id_exec: "keyed_by_id r \<Longrightarrow> keyed_by_id (snd (exec x r))"
proof (cases x)
  case (OpGetOrCreateUser clk j un fn ln lc)
  assume "keyed_by_id r"
  from keyed_by_id_GetOrCreateUser [OF this, of clk j un fn ln lc] OpGetOrCreateUser
  show ?thesis by (auto split: prod.splits sum.splits)
next
  case (OpSetKindleEmail now j email)
  assume "keyed_by_id r"
  with OpSetKindleEmail keyed_by_id_UpdatePreferences [of r now j] show ?thesis
    by (auto simp: SetKindleEmail_def split: option.splits)
next
  case (OpSetLanguage now j language)
  assume "keyed_by_id r"
  with OpSetLanguage keyed_by_id_UpdatePreferences [of r now j] show ?thesis
    by (simp add: SetLanguage_def)
next
  case (OpRecordBookSent now j)
  assume "keyed_by_id r"
  with OpRecordBookSent keyed_by_id_IncrementBooksSent [of r now j] show ?thesis
    by (simp add: RecordBookSent_def)
next
  case (OpGetUser j)
  assume "keyed_by_id r"
  with OpGetUser show ?thesis by (simp split: sum.splits)
next
  case (OpUpdatePreferences now j prefs)
  assume "keyed_by_id r"
  with OpUpdatePreferences keyed_by_id_UpdatePreferences [of r now j prefs] show ?thesis
    by simp
next
  case (OpIncrementBooksSent now j)
  assume "keyed_by_id r"
  with OpIncrementBooksSent keyed_by_id_IncrementBooksSent [of r now j] show ?thesis by simp
next
  case (OpUpdateLastActive now j)
  assume "keyed_by_id r"
  with OpUpdateLastActive keyed_by_id_UpdateLastActive [of r now j] show ?thesis by simp
qed

section \<open>Free text from a sender without a Kindle address\<close>

lemma GetOrCreateUser_resolves:
  assumes "keyed_by_id r"
  shows "\<exists>user s r'. GetOrCreateUser clk r i un fn ln lc = (Inr user, r')
     \<and> r' i = Some s \<and> same_but_LastActive user s \<and> TelegramID user = i
     \<and> (no_endpoint r i \<longrightarrow> \<not> HasKindleEmail user)
     \<and> (\<not> no_endpoint r i \<longrightarrow> HasKindleEmail user)"
proof (cases "r i")
  case None
  then show ?thesis
    by (simp add: GetOrCreateUser_new same_but_LastActive_def no_endpoint_def HasKindleEmail_def)
next
  case (Some u)
  with assms have "TelegramID u = i" by (simp add: keyed_by_id_def)
  with Some show ?thesis
    by (simp add: GetOrCreateUser_existing same_but_LastActive_def no_endpoint_def
        HasKindleEmail_def)
qed

lemma SetKindleEmail_stored:
  assumes "r i = Some s"
  shows "SetKindleEmail now r i q =
     (if ValidateKindleEmail q = None
      then (None, r(i \<mapsto> s\<lparr>KindleEmail := q, UpdatedAt := now\<rparr>))
      else (Some ErrInvalidEmail, r))"
proof (cases "ValidateKindleEmail q = None")
  case True
  then have "q \<noteq> []" by (auto simp: ValidateKindleEmail_def)
  with True assms show ?thesis
    by (simp add: SetKindleEmail_def UpdatePreferences_stored [of r i s])
next
  case False
  with ValidateKindleEmail_cases [of q] have "ValidateKindleEmail q = Some ErrInvalidEmail"
    by auto
  then show ?thesis by (simp add: SetKindleEmail_def)
qed

lemma handleSearchQuery_no_endpoint:
  assumes "\<not> HasKindleEmail user" and "repo w (TelegramID user) = Some s"
  shows "handleSearchQuery e h w m user =
     (if Contains (TrimSpace e (Text m)) ''@kindle.com'' then
        (if ValidateKindleEmail (TrimSpace e (Text m)) = None then
           orReturn
             (Send e (w\<lparr>repo := (repo w)(TelegramID user \<mapsto>
                         s\<lparr>KindleEmail := TrimSpace e (Text m), UpdatedAt := clock e 4\<rparr>)\<rparr>)
                (NewMessage (ChatID m)
                   (T (Sprintf e) (i18n h) (Language user) ''kindle_email_set''
                      [ArgString (TrimSpace e (Text m))])))
             (\<lambda>w1. sendMessage e h w1 (ChatID m) (Language user) ''whitelist_reminder''
                      [ArgNil])
         else sendMessage e h w (ChatID m) (Language user) ''kindle_email_invalid'' [ArgNil])
      else sendMessage e h w (ChatID m) (Language user) ''kindle_email_required'' [ArgNil])"
  using assms
  by (simp add: handleSearchQuery_def Let_def SetKindleEmail_stored [of "repo w" "TelegramID user" s])

lemma handleKindle_with_argument:
  assumes "CommandArguments m \<noteq> []" and "repo w (TelegramID user) = Some s"
  shows "handleKindle e h w m user =
     (if ValidateKindleEmail (TrimSpace e (CommandArguments m)) = None then
        orReturn
          (Send e (w\<lparr>repo := (repo w)(TelegramID user \<mapsto>
                      s\<lparr>KindleEmail := TrimSpace e (CommandArguments m),
                        UpdatedAt := clock e 4\<rparr>)\<rparr>)
             (NewMessage (ChatID m)
                (T (Sprintf e) (i18n h) (Language user) ''kindle_email_set''
                   [ArgString (TrimSpace e (CommandArguments m))])))
          (\<lambda>w1. sendMessage e h w1 (ChatID m) (Language user) ''whitelist_reminder''
                   [ArgNil])
      else sendMessage e h w (ChatID m) (Language user) ''kindle_email_invalid'' [ArgNil])"
  using assms
  by (simp add: handleKindle_def Let_def SetKindleEmail_stored [of "repo w" "TelegramID user" s])

lemma handleMessage_text:
  assumes "From m = Some f" and "\<not> IsCommand m" and "resolve_sender e w f = (Inr user, r')"
  shows "handleMessage e h w m = returned (handleSearchQuery e h (w\<lparr>repo := r'\<rparr>) m user)"
  using assms by (simp add: handleMessage_def resolve_sender_def)

lemma handleMessage_kindle_command:
  assumes "From m = Some f" and "resolve_sender e w f = (Inr user, r')"
  shows "handleMessage e h w (as_kindle_command m a)
         = returned (handleKindle e h (w\<lparr>repo := r'\<rparr>) (as_kindle_command m a) user)"
  using assms
  by (simp add: handleMessage_def resolve_sender_def as_kindle_command_def handleCommand_def)

text \<open>
  C8. Take a message that is not a command, from a sender whose profile, stored or about
  to be created, has no Kindle address; \<open>q\<close> is its trimmed text. If \<open>q\<close> contains
  \<open>@kindle.com\<close>, the router does exactly what it does for the same message sent as
  \<open>/kindle a\<close> with any non-empty argument that trims to \<open>q\<close>: it calls
  \<open>SetKindleEmail\<close> with \<open>q\<close>; when \<open>q\<close> is valid it stores it and sends the
  confirmation and then the whitelist reminder, otherwise it sends the invalid-address
  message; no search reply is sent. If \<open>q\<close> does not contain \<open>@kindle.com\<close>, the router
  sends the address-required message and nothing else, and the store is as
  \<open>GetOrCreateUser\<close> left it.
\<close>

theorem C8_free_text_without_endpoint:
  assumes sender: "From m = Some f"
    and nc: "\<not> IsCommand m"
    and keyed: "keyed_by_id (repo w)"
    and noep: "no_endpoint (repo w) (from_ID f)"
  shows "\<exists>user r' s.
       resolve_sender e w f = (Inr user, r')
     \<and> r' (from_ID f) = Some s \<and> \<not> HasKindleEmail user
     \<and> (Contains (TrimSpace e (Text m)) ''@kindle.com'' \<longrightarrow>
          (\<forall>a. a \<noteq> [] \<and> TrimSpace e a = TrimSpace e (Text m) \<longrightarrow>
             handleMessage e h w m = handleMessage e h w (as_kindle_command m a)))
     \<and> (Contains (TrimSpace e (Text m)) ''@kindle.com''
          \<and> ValidateKindleEmail (TrimSpace e (Text m)) = None \<longrightarrow>
          handleMessage e h w m =
            returned
              (orReturn
                 (Send e (w\<lparr>repo := r'(from_ID f \<mapsto>
                             s\<lparr>KindleEmail := TrimSpace e (Text m), UpdatedAt := clock e 4\<rparr>)\<rparr>)
                    (NewMessage (ChatID m)
                       (T (Sprintf e) (i18n h) (Language user) ''kindle_email_set''
                          [ArgString (TrimSpace e (Text m))])))
                 (\<lambda>w1. sendMessage e h w1 (ChatID m) (Language user) ''whitelist_reminder''
                          [ArgNil])))
     \<and> (Contains (TrimSpace e (Text m)) ''@kindle.com''
          \<and> ValidateKindleEmail (TrimSpace e (Text m)) \<noteq> None \<longrightarrow>
          handleMessage e h w m =
            returned (sendMessage e h (w\<lparr>repo := r'\<rparr>) (ChatID m) (Language user)
                        ''kindle_email_invalid'' [ArgNil]))
     \<and> (\<not> Contains (TrimSpace e (Text m)) ''@kindle.com'' \<longrightarrow>
          handleMessage e h w m =
            returned (sendMessage e h (w\<lparr>repo := r'\<rparr>) (ChatID m) (Language user)
                        ''kindle_email_required'' [ArgNil]))
     \<and> (Contains (TrimSpace e (Text m)) ''@kindle.com''
          \<and> ValidateKindleEmail (TrimSpace e (Text m)) = None
          \<and> net e (calls w) \<and> net e (Suc (calls w)) \<longrightarrow>
          (\<exists>w' u'. handleMessage e h w m = (Returned None, w')
             \<and> sent w' = sent w @
                  [NewMessage (ChatID m)
                     (T (Sprintf e) (i18n h) (Language user) ''kindle_email_set''
                        [ArgString (TrimSpace e (Text m))]),
                   NewMessage (ChatID m)
                     (T (Sprintf e) (i18n h) (Language user) ''whitelist_reminder'' [ArgNil])]
             \<and> repo w' (from_ID f) = Some u'
             \<and> KindleEmail u' = TrimSpace e (Text m)))
     \<and> (\<not> Contains (TrimSpace e (Text m)) ''@kindle.com'' \<and> net e (calls w) \<longrightarrow>
          (\<exists>w'. handleMessage e h w m = (Returned None, w')
             \<and> sent w' = sent w @
                  [NewMessage (ChatID m)
                     (T (Sprintf e) (i18n h) (Language user) ''kindle_email_required''
                        [ArgNil])]
             \<and> repo w' = r'))"
proof -
  let ?i = "from_ID f"
  let ?q = "TrimSpace e (Text m)"
  from GetOrCreateUser_resolves [of "repo w" "clock e" ?i "from_FirstName f"
      "from_LastName f" "from_UserName f" "from_LanguageCode f", OF keyed]
    noep
  obtain user s r' where res: "resolve_sender e w f = (Inr user, r')"
    and st: "r' ?i = Some s" and tid: "TelegramID user = ?i"
    and ne: "\<not> HasKindleEmail user"
    unfolding resolve_sender_def by blast
  let ?w = "w\<lparr>repo := r'\<rparr>"
  have st': "repo ?w (TelegramID user) = Some s"
    using st tid by simp
  have plain: "handleMessage e h w m = returned (handleSearchQuery e h ?w m user)"
    by (rule handleMessage_text [OF sender nc res])
  note sq = handleSearchQuery_no_endpoint [of user ?w s e h m, OF ne st']
  have same: "Contains ?q ''@kindle.com'' \<longrightarrow>
          (\<forall>a. a \<noteq> [] \<and> TrimSpace e a = ?q \<longrightarrow>
             handleMessage e h w m = handleMessage e h w (as_kindle_command m a))"
  proof (intro impI allI)
    fix a assume c: "Contains ?q ''@kindle.com''" and a: "a \<noteq> [] \<and> TrimSpace e a = ?q"
    have args: "CommandArguments (as_kindle_command m a) \<noteq> []"
      using a by (simp add: as_kindle_command_def)
    have "handleKindle e h ?w (as_kindle_command m a) user = handleSearchQuery e h ?w m user"
      unfolding handleKindle_with_argument [of "as_kindle_command m a" ?w user s e h, OF args st'] sq
      using c a by (simp add: as_kindle_command_def)
    then show "handleMessage e h w m = handleMessage e h w (as_kindle_command m a)"
      unfolding plain handleMessage_kindle_command [OF sender res] by simp
  qed
  have valid: "Contains ?q ''@kindle.com'' \<and> ValidateKindleEmail ?q = None \<longrightarrow>
          handleMessage e h w m =
            returned
              (orReturn
                 (Send e (w\<lparr>repo := r'(?i \<mapsto> s\<lparr>KindleEmail := ?q, UpdatedAt := clock e 4\<rparr>)\<rparr>)
                    (NewMessage (ChatID m)
                       (T (Sprintf e) (i18n h) (Language user) ''kindle_email_set''
                          [ArgString ?q])))
                 (\<lambda>w1. sendMessage e h w1 (ChatID m) (Language user) ''whitelist_reminder''
                          [ArgNil]))"
    unfolding plain sq using tid by simp
  have invalid: "Contains ?q ''@kindle.com'' \<and> ValidateKindleEmail ?q \<noteq> None \<longrightarrow>
          handleMessage e h w m =
            returned (sendMessage e h ?w (ChatID m) (Language user) ''kindle_email_invalid''
                        [ArgNil])"
    unfolding plain sq by simp
  have required: "\<not> Contains ?q ''@kindle.com'' \<longrightarrow>
          handleMessage e h w m =
            returned (sendMessage e h ?w (ChatID m) (Language user) ''kindle_email_required''
                        [ArgNil])"
    unfolding plain sq by simp
  have valid_sent: "Contains ?q ''@kindle.com'' \<and> ValidateKindleEmail ?q = None
          \<and> net e (calls w) \<and> net e (Suc (calls w)) \<longrightarrow>
          (\<exists>w' u'. handleMessage e h w m = (Returned None, w')
             \<and> sent w' = sent w @
                  [NewMessage (ChatID m)
                     (T (Sprintf e) (i18n h) (Language user) ''kindle_email_set''
                        [ArgString ?q]),
                   NewMessage (ChatID m)
                     (T (Sprintf e) (i18n h) (Language user) ''whitelist_reminder'' [ArgNil])]
             \<and> repo w' ?i = Some u'
             \<and> KindleEmail u' = ?q)"
    unfolding plain sq using tid
    by (simp add: returned_def orReturn_def sendMessage_def Send_def)
  have required_sent: "\<not> Contains ?q ''@kindle.com'' \<and> net e (calls w) \<longrightarrow>
          (\<exists>w'. handleMessage e h w m = (Returned None, w')
             \<and> sent w' = sent w @
                  [NewMessage (ChatID m)
                     (T (Sprintf e) (i18n h) (Language user) ''kindle_email_required''
                        [ArgNil])]
             \<and> repo w' = r')"
    unfolding plain sq
    by (simp add: returned_def sendMessage_def Send_def)
  show ?thesis
    by (intro exI [of _ user] exI [of _ r'] exI [of _ s] conjI
        res st ne same valid invalid required valid_sent required_sent)
qed

lemma trim_address: "trim_ascii ''  john@kindle.com '' = ''john@kindle.com''"
  by (simp add: trim_ascii_def ascii_space_def)

lemma trim_plain: "trim_ascii ''john@kindle.com'' = ''john@kindle.com''"
  by (simp add: trim_ascii_def ascii_space_def)

lemma trim_1984: "trim_ascii ''1984'' = ''1984''"
  by (simp add: trim_ascii_def ascii_space_def)

lemma resolve_alice:
  "resolve_sender test_env (new_world test_repo) from_alice =
     (Inr (alice\<lparr>LastActive := 1000\<rparr>), test_repo(12345 \<mapsto> alice\<lparr>LastActive := 1001\<rparr>))"
proof -
  have tr: "test_repo 12345 = Some alice" by (simp add: test_repo_def)
  have "resolve_sender test_env (new_world test_repo) from_alice =
     GetOrCreateUser (\<lambda>n. 1000 + int n) test_repo 12345 ''John'' ''Doe'' ''johndoe'' ''en''"
    by (simp add: resolve_sender_def test_env_def new_world_def from_alice_def)
  also have "\<dots> = (Inr (alice\<lparr>LastActive := 1000 + int 0\<rparr>),
                   test_repo(12345 \<mapsto> alice\<lparr>LastActive := 1000 + int 1\<rparr>))"
    by (rule GetOrCreateUser_existing [of test_repo 12345 alice, OF tr])
  finally show ?thesis by simp
qed

lemma T_test_en:
  "T template_only test_i18n ''en'' ''kindle_email_set'' args = ''Email set to %s''"
  "T template_only test_i18n ''en'' ''whitelist_reminder'' args = ''Remember to whitelist''"
  "T template_only test_i18n ''en'' ''kindle_email_required'' args = ''Email required''"
  by (simp_all add: T_def lookup_def test_i18n_def template_only_def)

theorem C8_witness:
  "From msg_address = Some from_alice \<and> \<not> IsCommand msg_address
   \<and> keyed_by_id test_repo \<and> no_endpoint test_repo 12345
   \<and> fst (handleMessage test_env test_handler (new_world test_repo) msg_address) = Returned None
   \<and> sent (snd (handleMessage test_env test_handler (new_world test_repo) msg_address))
       = [NewMessage 12345 ''Email set to %s'', NewMessage 12345 ''Remember to whitelist'']
   \<and> map_option KindleEmail
         (repo (snd (handleMessage test_env test_handler (new_world test_repo) msg_address)) 12345)
       = Some ''john@kindle.com''
   \<and> handleMessage test_env test_handler (new_world test_repo) msg_address
       = handleMessage test_env test_handler (new_world test_repo)
           (as_kindle_command msg_address ''john@kindle.com'')
   \<and> fst (handleMessage test_env test_handler (new_world test_repo) msg_1984) = Returned None
   \<and> sent (snd (handleMessage test_env test_handler (new_world test_repo) msg_1984))
       = [NewMessage 12345 ''Email required'']"
proof -
  let ?w = "new_world test_repo"
  have nc: "\<not> IsCommand msg_address" "\<not> IsCommand msg_1984"
    by (simp_all add: msg_address_def msg_1984_def text_message_def)
  have keyed: "keyed_by_id (repo ?w)"
    using keyed_by_id_test_repo by (simp add: new_world_def)
  have id: "from_ID from_alice = 12345"
    by (simp add: from_alice_def)
  have ne0: "no_endpoint test_repo 12345"
    by (simp add: no_endpoint_def test_repo_def alice_def HasKindleEmail_def)
  have ne: "no_endpoint (repo ?w) (from_ID from_alice)"
    using ne0 by (simp add: id new_world_def)
  have fr: "From msg_address = Some from_alice" "From msg_1984 = Some from_alice"
    by (simp_all add: msg_address_def msg_1984_def text_message_def)
  have q: "TrimSpace test_env (Text msg_address) = ''john@kindle.com''"
    by (simp add: test_env_def msg_address_def text_message_def trim_address)
  have q2: "TrimSpace test_env (Text msg_1984) = ''1984''"
    by (simp add: test_env_def msg_1984_def text_message_def trim_1984)
  have qa: "TrimSpace test_env ''john@kindle.com'' = ''john@kindle.com''"
    by (simp add: test_env_def trim_plain)
  have c: "Contains ''john@kindle.com'' ''@kindle.com''" by simp
  have c2: "\<not> Contains ''1984'' ''@kindle.com''" by simp
  have v: "ValidateKindleEmail ''john@kindle.com'' = None"
    by (simp add: ValidateKindleEmail_def)
  have nets: "net test_env n" for n by (simp add: test_env_def)
  have misc: "Sprintf test_env = template_only" "i18n test_handler = test_i18n"
    "ChatID msg_address = 12345" "ChatID msg_1984 = 12345" "sent ?w = []"
    by (simp_all add: test_env_def test_handler_def msg_address_def msg_1984_def
        text_message_def from_alice_def new_world_def)
  have lang: "Language (alice\<lparr>LastActive := 1000\<rparr>) = ''en''" by (simp add: alice_def)
  from C8_free_text_without_endpoint [of msg_address from_alice ?w test_env test_handler,
      OF fr(1) nc(1) keyed ne]
  obtain user r' where
    r: "resolve_sender test_env ?w from_alice = (Inr user, r')"
    and same: "Contains (TrimSpace test_env (Text msg_address)) ''@kindle.com'' \<longrightarrow>
          (\<forall>a. a \<noteq> [] \<and> TrimSpace test_env a = TrimSpace test_env (Text msg_address) \<longrightarrow>
             handleMessage test_env test_handler ?w msg_address
             = handleMessage test_env test_handler ?w (as_kindle_command msg_address a))"
    and ok: "Contains (TrimSpace test_env (Text msg_address)) ''@kindle.com''
          \<and> ValidateKindleEmail (TrimSpace test_env (Text msg_address)) = None
          \<and> net test_env (calls ?w) \<and> net test_env (Suc (calls ?w)) \<longrightarrow>
          (\<exists>w' u'. handleMessage test_env test_handler ?w msg_address = (Returned None, w')
             \<and> sent w' = sent ?w @
                  [NewMessage (ChatID msg_address)
                     (T (Sprintf test_env) (i18n test_handler) (Language user) ''kindle_email_set''
                        [ArgString (TrimSpace test_env (Text msg_address))]),
                   NewMessage (ChatID msg_address)
                     (T (Sprintf test_env) (i18n test_handler) (Language user)
                        ''whitelist_reminder'' [ArgNil])]
             \<and> repo w' (from_ID from_alice) = Some u'
             \<and> KindleEmail u' = TrimSpace test_env (Text msg_address))"
    by blast
  from r resolve_alice have user: "Language user = ''en''"
    using lang by auto
  from ok obtain w' u' where
    w': "handleMessage test_env test_handler ?w msg_address = (Returned None, w')"
    "sent w' = [NewMessage 12345 ''Email set to %s'', NewMessage 12345 ''Remember to whitelist'']"
    "repo w' 12345 = Some u'" "KindleEmail u' = ''john@kindle.com''"
    unfolding q user misc id T_test_en using c v nets by auto
  from same have eq: "handleMessage test_env test_handler ?w msg_address
       = handleMessage test_env test_handler ?w (as_kindle_command msg_address ''john@kindle.com'')"
    unfolding q using c qa by simp
  from C8_free_text_without_endpoint [of msg_1984 from_alice ?w test_env test_handler,
      OF fr(2) nc(2) keyed ne]
  obtain user2 r2 where
    r2: "resolve_sender test_env ?w from_alice = (Inr user2, r2)"
    and req: "\<not> Contains (TrimSpace test_env (Text msg_1984)) ''@kindle.com''
          \<and> net test_env (calls ?w) \<longrightarrow>
          (\<exists>w'. handleMessage test_env test_handler ?w msg_1984 = (Returned None, w')
             \<and> sent w' = sent ?w @
                  [NewMessage (ChatID msg_1984)
                     (T (Sprintf test_env) (i18n test_handler) (Language user2)
                        ''kindle_email_required'' [ArgNil])]
             \<and> repo w' = r2)"
    by blast
  from r2 resolve_alice have user2: "Language user2 = ''en''"
    using lang by auto
  from req obtain w2 where
    w2: "handleMessage test_env test_handler ?w msg_1984 = (Returned None, w2)"
    "sent w2 = [NewMessage 12345 ''Email required'']"
    unfolding q2 user2 misc T_test_en using c2 nets by auto
  show ?thesis
    using fr(1) nc(1) keyed_by_id_test_repo ne0 w' eq w2 by simp
qed

section \<open>How many replies a dispatch sends\<close>





















lemma handleMessage_without_sender:
  "From m = None \<Longrightarrow> handleMessage e h w m = (Panic, w)"
  by (simp add: handleMessage_def)





lemma update_without_sender:
  "HandleUpdate test_env test_handler (new_world test_repo) upd_no_sender
     = (Panic, new_world test_repo)"
proof -
  have "From msg_no_sender = None" by (simp add: msg_no_sender_def)
  then show ?thesis
    by (simp add: HandleUpdate_def upd_no_sender_def handleMessage_without_sender)
qed




end
